theory Spec2Isabelle
  imports Complex_Main "HOL-Library.Sublist"
begin

section \<open>Strings\<close>

text \<open>Python's \<open>pat in s\<close> on strings: \<open>pat\<close> occurs as a contiguous run of \<open>s\<close>.\<close>

fun str_in :: "string \<Rightarrow> string \<Rightarrow> bool" where
  "str_in pat [] = (pat = [])"
| "str_in pat (c # cs) = (prefix pat (c # cs) \<or> str_in pat cs)"

text \<open>\<open>str.lower()\<close> on the ASCII range: the capital letters move to the small ones,
  every other character stays.\<close>

definition lower_char :: "char \<Rightarrow> char" where
  "lower_char c =
     (let n = (of_char c :: nat)
      in if 65 \<le> n \<and> n \<le> 90 then char_of (n + 32) else c)"

definition lower :: "string \<Rightarrow> string" where
  "lower s = map lower_char s"

section \<open>Tables\<close>

text \<open>A cell of a pandas DataFrame. \<open>Null\<close> is the missing marker of its column
  (\<open>None\<close>, \<open>NaN\<close> or \<open>NaT\<close>: \<open>read_json\<close> gives a column one of them), so a column that
  mixes \<open>None\<close> and \<open>NaN\<close> is outside this type.\<close>

record timestamp =
  ts_year :: nat
  ts_month :: nat
  ts_day :: nat
  ts_hour :: nat
  ts_subhour :: nat

datatype cell = Null | StrV string | IntV int | BoolV bool | NumV real | TsV timestamp

datatype error =
    FileNotFoundError string
  | KeyError string
  | AttributeError string
  | ValueError string
  | OSError string

text \<open>A row maps a column label to its cell; a frame lists its column labels in order and
  its rows, each with its index label.\<close>

type_synonym row = "string \<Rightarrow> cell"

record frame =
  columns :: "string list"
  rows :: "(int \<times> row) list"

definition mk_row :: "string list \<Rightarrow> cell list \<Rightarrow> row" where
  "mk_row names vals = (\<lambda>c. case map_of (zip names vals) c of Some v \<Rightarrow> v | None \<Rightarrow> Null)"

definition restrict_row :: "string list \<Rightarrow> row \<Rightarrow> row" where
  "restrict_row cs r = mk_row cs (map r cs)"

definition getcol :: "string \<Rightarrow> frame \<Rightarrow> cell list" where
  \<comment> \<open>the values of \<open>df[c]\<close>\<close>
  "getcol c df = map (\<lambda>r. snd r c) (rows df)"

definition index :: "frame \<Rightarrow> int list" where
  "index df = map fst (rows df)"

definition setitem :: "string \<Rightarrow> cell list \<Rightarrow> frame \<Rightarrow> frame" where
  \<comment> \<open>\<open>df[c] = vs\<close>: an existing column keeps its place, a new one goes last\<close>
  "setitem c vs df =
     \<lparr>columns = (if c \<in> set (columns df) then columns df else columns df @ [c]),
      rows = map (\<lambda>(r, v). (fst r, (snd r)(c := v))) (zip (rows df) vs)\<rparr>"

definition select :: "string list \<Rightarrow> frame \<Rightarrow> frame" where
  \<comment> \<open>\<open>df[[c1, ..., ck]]\<close>\<close>
  "select cs df = \<lparr>columns = cs, rows = map (\<lambda>r. (fst r, restrict_row cs (snd r))) (rows df)\<rparr>"

definition drop_cols :: "string list \<Rightarrow> frame \<Rightarrow> frame" where
  \<comment> \<open>\<open>df.drop(columns=cs)\<close>\<close>
  "drop_cols cs df = select [c \<leftarrow> columns df. c \<notin> set cs] df"

definition filter_rows :: "(row \<Rightarrow> bool) \<Rightarrow> frame \<Rightarrow> frame" where
  \<comment> \<open>\<open>df[mask]\<close>\<close>
  "filter_rows P df = df\<lparr>rows := filter (\<lambda>r. P (snd r)) (rows df)\<rparr>"

text \<open>Equality of keys in \<open>drop_duplicates\<close> and \<open>merge\<close> is Python's: a boolean, an integer
  and a float of the same value are one key.\<close>

fun key_norm :: "cell \<Rightarrow> cell" where
  "key_norm (BoolV b) = NumV (if b then 1 else 0)"
| "key_norm (IntV n) = NumV (of_int n)"
| "key_norm v = v"

fun first_seen :: "('a \<Rightarrow> 'b) \<Rightarrow> 'b list \<Rightarrow> 'a list \<Rightarrow> 'a list" where
  "first_seen key seen [] = []"
| "first_seen key seen (x # xs) =
     (if key x \<in> set seen then first_seen key seen xs
      else x # first_seen key (key x # seen) xs)"

definition drop_duplicates :: "string \<Rightarrow> frame \<Rightarrow> frame" where
  \<comment> \<open>\<open>df.drop_duplicates(subset=[k])\<close>: the first row of each key value stays; missing
     keys count as equal to each other\<close>
  "drop_duplicates k df = df\<lparr>rows := first_seen (\<lambda>r. key_norm (snd r k)) [] (rows df)\<rparr>"

definition reset_index :: "frame \<Rightarrow> frame" where
  \<comment> \<open>\<open>df.reset_index(drop=True)\<close>\<close>
  "reset_index df = df\<lparr>rows := zip (map int [0..<length (rows df)]) (map snd (rows df))\<rparr>"

definition rename_cols :: "(string \<times> string) list \<Rightarrow> frame \<Rightarrow> frame" where
  \<comment> \<open>\<open>df.rename(columns=m)\<close>\<close>
  "rename_cols m df =
     (let ren = (\<lambda>c. case map_of m c of Some c' \<Rightarrow> c' | None \<Rightarrow> c) in
      \<lparr>columns = map ren (columns df),
       rows = map (\<lambda>r. (fst r, mk_row (map ren (columns df)) (map (snd r) (columns df)))) (rows df)\<rparr>)"

definition concat_frames :: "frame list \<Rightarrow> frame" where
  \<comment> \<open>\<open>pd.concat(frames, ignore_index=True)\<close>: the union of the columns in order of first
     appearance, the rows one frame after the other, a column a frame lacks left missing\<close>
  "concat_frames fs =
     reset_index
       \<lparr>columns = first_seen id [] (concat (map columns fs)),
        rows = concat (map (\<lambda>f. map (\<lambda>r. (fst r, restrict_row (columns f) (snd r))) (rows f)) fs)\<rparr>"

definition fillna :: "cell \<Rightarrow> cell list \<Rightarrow> cell list" where
  "fillna v xs = map (\<lambda>x. if x = Null then v else x) xs"

text \<open>\<open>left.merge(right, on=k, how="left")\<close>: every left row, in order, once per right row
  with an equal key (missing keys match each other), or once with the right columns
  missing; a column on both sides other than the key gets the suffixes \<open>_x\<close>, \<open>_y\<close>.\<close>

definition partners :: "string \<Rightarrow> frame \<Rightarrow> row \<Rightarrow> row list" where
  "partners k right l =
     (case [r \<leftarrow> map snd (rows right). key_norm (r k) = key_norm (l k)] of [] \<Rightarrow> [\<lambda>c. Null] | ms \<Rightarrow> ms)"

definition merge_names :: "string \<Rightarrow> frame \<Rightarrow> frame \<Rightarrow> string list" where
  "merge_names k left right =
     (let rcols = [c \<leftarrow> columns right. c \<noteq> k];
          both = [c \<leftarrow> rcols. c \<in> set (columns left)]
      in map (\<lambda>c. if c \<in> set both then c @ ''_x'' else c) (columns left)
         @ map (\<lambda>c. if c \<in> set both then c @ ''_y'' else c) rcols)"

definition merge_left :: "string \<Rightarrow> frame \<Rightarrow> frame \<Rightarrow> frame" where
  "merge_left k left right =
     (let rcols = [c \<leftarrow> columns right. c \<noteq> k];
          names = merge_names k left right;
          join = (\<lambda>l r. mk_row names (map l (columns left) @ map r rcols));
          out = concat (map (\<lambda>l. map (join l) (partners k right l)) (map snd (rows left)))
      in \<lparr>columns = names, rows = zip (map int [0..<length out]) out\<rparr>)"

section \<open>Constants (config.py)\<close>

definition UNKNOWN_VALUE :: string where "UNKNOWN_VALUE = ''Unknown''"
definition UNKNOWN_ID :: int where "UNKNOWN_ID = - 1"
definition AUDIOBOOK_COLUMNS_PATTERN :: string where "AUDIOBOOK_COLUMNS_PATTERN = ''audiobook''"

section \<open>Cleaning (ReadProcess.clean_data)\<close>

text \<open>\<open>df.copy()\<close> returns an equal table; the column group is dropped when it is not
  empty and \<open>df[audiobook_cols].isnull().all().all()\<close>.\<close>

definition clean_data :: "frame \<Rightarrow> frame" where
  "clean_data df0 =
     (let df = df0;
          audiobook_cols = [col \<leftarrow> columns df. str_in AUDIOBOOK_COLUMNS_PATTERN col];
          df = (if audiobook_cols \<noteq> []
                   \<and> list_all (\<lambda>col. list_all (\<lambda>v. v = Null) (getcol col df)) audiobook_cols
                then drop_cols audiobook_cols df else df);
          df = reset_index df
      in setitem ''event_id'' (map IntV (index df)) df)"


section \<open>Device classification (ReadProcess.classify_device)\<close>

text \<open>The platform is \<open>None\<close> where \<open>pd.isna(platform)\<close> holds.\<close>

definition classify_device :: "string option \<Rightarrow> string" where
  "classify_device platform =
     (case platform of
        None \<Rightarrow> ''unknown''
      | Some p \<Rightarrow>
          (let platform = lower p in
           if str_in ''android'' platform \<or> str_in ''ios'' platform then ''mobile''
           else if str_in ''windows'' platform \<or> str_in ''mac'' platform then ''desktop''
           else if str_in ''web'' platform then ''web''
           else ''other''))"

section \<open>Timestamps (the \<open>.dt\<close> accessor)\<close>

definition digit :: "nat \<Rightarrow> char" where
  "digit n = char_of (48 + n mod 10)"

fun dec :: "nat \<Rightarrow> string" where
  "dec n = (if n < 10 then [digit n] else dec (n div 10) @ [digit n])"

declare dec.simps [simp del]

definition zfill :: "nat \<Rightarrow> string \<Rightarrow> string" where
  "zfill w s = replicate (w - length s) (CHR ''0'') @ s"

definition strftime_YmdH :: "timestamp \<Rightarrow> string" where
  \<comment> \<open>\<open>strftime("%Y%m%d%H")\<close>\<close>
  "strftime_YmdH t =
     zfill 4 (dec (ts_year t)) @ zfill 2 (dec (ts_month t)) @ zfill 2 (dec (ts_day t))
       @ zfill 2 (dec (ts_hour t))"

definition days_from_civil :: "int \<Rightarrow> int \<Rightarrow> int \<Rightarrow> int" where
  \<comment> \<open>days since 1970-01-01 in the proleptic Gregorian calendar\<close>
  "days_from_civil y m d =
     (let y' = (if m \<le> 2 then y - 1 else y);
          era = y' div 400;
          yoe = y' - era * 400;
          doy = (153 * (if m > 2 then m - 3 else m + 9) + 2) div 5 + d - 1;
          doe = yoe * 365 + yoe div 4 - yoe div 100 + doy
      in era * 146097 + doe - 719468)"

definition day_name :: "timestamp \<Rightarrow> string" where
  "day_name t =
     [''Thursday'', ''Friday'', ''Saturday'', ''Sunday'', ''Monday'', ''Tuesday'', ''Wednesday'']
       ! nat (days_from_civil (int (ts_year t)) (int (ts_month t)) (int (ts_day t)) mod 7)"

definition datetimelike :: "cell list \<Rightarrow> bool" where
  \<comment> \<open>the \<open>.dt\<close> accessor exists: every cell is a timestamp or missing (\<open>NaT\<close>); the dtype
     of a column with no timestamp at all is taken to be the one \<open>convert_dates\<close> asked for\<close>
  "datetimelike vs = list_all (\<lambda>v. case v of Null \<Rightarrow> True | TsV _ \<Rightarrow> True | _ \<Rightarrow> False) vs"

definition dt :: "(timestamp \<Rightarrow> cell) \<Rightarrow> cell \<Rightarrow> cell" where
  \<comment> \<open>a \<open>.dt\<close> field of one cell; a missing timestamp gives a missing value\<close>
  "dt f v = (case v of TsV t \<Rightarrow> f t | _ \<Rightarrow> Null)"

definition dt_num :: "cell list \<Rightarrow> (timestamp \<Rightarrow> nat) \<Rightarrow> cell \<Rightarrow> cell" where
  \<comment> \<open>a numeric \<open>.dt\<close> field over the column \<open>vs\<close>: integers, and floats once a timestamp of
     the column is missing\<close>
  "dt_num vs f = dt (\<lambda>t. if Null \<in> set vs then NumV (real (f t)) else IntV (int (f t)))"

definition date_id_of :: "cell \<Rightarrow> cell" where
  "date_id_of = dt (\<lambda>t. StrV (strftime_YmdH t))"

section \<open>Dimensions (ReadProcess.create_dim_*)\<close>

definition missing_cols :: "string list \<Rightarrow> frame \<Rightarrow> string list" where
  "missing_cols cs df = [c \<leftarrow> cs. c \<notin> set (columns df)]"

definition from_records :: "(string \<times> cell) list list \<Rightarrow> frame" where
  \<comment> \<open>\<open>pd.DataFrame(records)\<close>: no record, no column\<close>
  "from_records recs =
     \<lparr>columns = first_seen id [] (concat (map (map fst) recs)),
      rows = zip (map int [0..<length recs]) (map (\<lambda>r. mk_row (map fst r) (map snd r)) recs)\<rparr>"

definition create_dim_date :: "frame \<Rightarrow> error + frame" where
  "create_dim_date df =
     (if ''ts'' \<notin> set (columns df) then Inl (KeyError ''ts'')
      else if \<not> datetimelike (getcol ''ts'' df) then Inl (AttributeError ''dt'')
      else
        Inr (let temp = df;
             temp = setitem ''date_id'' (map date_id_of (getcol ''ts'' temp)) temp;
             temp = setitem ''year'' (map (dt_num (getcol ''ts'' temp) ts_year) (getcol ''ts'' temp)) temp;
             temp = setitem ''month'' (map (dt_num (getcol ''ts'' temp) ts_month) (getcol ''ts'' temp)) temp;
             temp = setitem ''day'' (map (dt_num (getcol ''ts'' temp) ts_day) (getcol ''ts'' temp)) temp;
             temp = setitem ''weekday'' (map (dt (\<lambda>t. StrV (day_name t))) (getcol ''ts'' temp)) temp;
             temp = setitem ''hour'' (map (dt_num (getcol ''ts'' temp) ts_hour) (getcol ''ts'' temp)) temp;
             dim_date = reset_index (drop_duplicates ''date_id''
                          (select [''date_id'', ''year'', ''month'', ''day'', ''weekday'', ''hour''] temp))
         in dim_date))"

definition classify_cell :: "cell \<Rightarrow> cell" where
  \<comment> \<open>\<open>classify_device\<close> under \<open>Series.apply\<close>. \<open>str()\<close> of a number, a boolean or a
     timestamp holds none of the five patterns.\<close>
  "classify_cell v =
     StrV (case v of Null \<Rightarrow> classify_device None
                   | StrV p \<Rightarrow> classify_device (Some p)
                   | _ \<Rightarrow> ''other'')"

definition create_dim_device :: "frame \<Rightarrow> error + frame" where
  "create_dim_device df =
     (if ''platform'' \<notin> set (columns df) then Inl (KeyError ''platform'')
      else
        Inr (let temp = df;
             temp = setitem ''device_type'' (map classify_cell (getcol ''platform'' temp)) temp;
             dim_device = reset_index (drop_duplicates ''platform''
                            (select [''platform'', ''device_type''] temp));
             dim_device = setitem ''device_id'' (map IntV (index dim_device)) dim_device;
             unknown = from_records [[(''platform'', StrV UNKNOWN_VALUE),
                         (''device_type'', StrV ''unknown''), (''device_id'', IntV UNKNOWN_ID)]];
             dim_device = concat_frames [unknown, dim_device]
         in dim_device))"

definition create_dim_track :: "frame \<Rightarrow> error + frame" where
  "create_dim_track df =
     (case missing_cols [''spotify_track_uri'', ''master_metadata_track_name'',
             ''master_metadata_album_artist_name'', ''master_metadata_album_album_name''] df of
        c # _ \<Rightarrow> Inl (KeyError c)
      | [] \<Rightarrow>
        Inr (let music_df = filter_rows (\<lambda>r. r ''spotify_track_uri'' \<noteq> Null) df;
             dim_track = reset_index (drop_duplicates ''spotify_track_uri''
                           (select [''spotify_track_uri'', ''master_metadata_track_name'',
                              ''master_metadata_album_artist_name'',
                              ''master_metadata_album_album_name''] music_df));
             dim_track = rename_cols [(''master_metadata_track_name'', ''track_name''),
                           (''master_metadata_album_artist_name'', ''artist_name''),
                           (''master_metadata_album_album_name'', ''album_name'')] dim_track;
             dim_track = setitem ''track_id'' (map IntV (index dim_track)) dim_track;
             unknown = from_records [[(''spotify_track_uri'', StrV UNKNOWN_VALUE),
                         (''track_name'', StrV ''Non-Music Content''),
                         (''artist_name'', StrV ''N/A''), (''album_name'', StrV ''N/A''),
                         (''track_id'', IntV UNKNOWN_ID)]];
             dim_track = concat_frames [unknown, dim_track]
         in dim_track))"

definition create_dim_episode :: "frame \<Rightarrow> error + frame" where
  "create_dim_episode df =
     (case missing_cols [''spotify_episode_uri'', ''episode_name'', ''episode_show_name''] df of
        c # _ \<Rightarrow> Inl (KeyError c)
      | [] \<Rightarrow>
        Inr (let podcast_df = filter_rows (\<lambda>r. r ''spotify_episode_uri'' \<noteq> Null) df;
             dim_episode = reset_index (drop_duplicates ''spotify_episode_uri''
                             (select [''spotify_episode_uri'', ''episode_name'',
                                ''episode_show_name''] podcast_df));
             dim_episode = rename_cols [(''episode_show_name'', ''show_name'')] dim_episode;
             dim_episode = setitem ''episode_id'' (map IntV (index dim_episode)) dim_episode;
             unknown = from_records [[(''spotify_episode_uri'', StrV UNKNOWN_VALUE),
                         (''episode_name'', StrV ''Non-Podcast Content''),
                         (''show_name'', StrV ''N/A''), (''episode_id'', IntV UNKNOWN_ID)]];
             dim_episode = concat_frames [unknown, dim_episode]
         in dim_episode))"

definition create_dim_location :: "frame \<Rightarrow> error + frame" where
  "create_dim_location df =
     (case missing_cols [''ip_addr'', ''conn_country''] df of
        c # _ \<Rightarrow> Inl (KeyError c)
      | [] \<Rightarrow>
        Inr (let dim_location = reset_index (drop_duplicates ''ip_addr''
                              (select [''ip_addr'', ''conn_country''] df));
             dim_location = setitem ''location_id'' (map IntV (index dim_location)) dim_location;
             unknown = from_records [[(''ip_addr'', StrV ''0.0.0.0''),
                         (''conn_country'', StrV ''XX''), (''location_id'', IntV UNKNOWN_ID)]];
             dim_location = concat_frames [unknown, dim_location]
         in dim_location))"

section \<open>Fact table (ReadProcess.create_fact_table)\<close>

definition int64 :: "int \<Rightarrow> bool" where
  "int64 n = (- (2 ^ 63) \<le> n \<and> n < 2 ^ 63)"

definition astype_int :: "cell list \<Rightarrow> error + cell list" where
  \<comment> \<open>\<open>.astype(int)\<close> on a column of integers, booleans and floats inside the 64-bit range,
     the cells the joins of \<open>main\<close> leave in a key column. Any other cell (text, a timestamp,
     a number outside the range) is outside this model and reported as an error.\<close>
  "astype_int vs =
     (if list_all (\<lambda>v. case v of IntV n \<Rightarrow> int64 n | BoolV _ \<Rightarrow> True
                           | NumV x \<Rightarrow> int64 (if x < 0 then \<lceil>x\<rceil> else \<lfloor>x\<rfloor>) | _ \<Rightarrow> False) vs
      then Inr (map (\<lambda>v. case v of
                       BoolV b \<Rightarrow> IntV (if b then 1 else 0)
                     | NumV x \<Rightarrow> IntV (if x < 0 then \<lceil>x\<rceil> else \<lfloor>x\<rfloor>)
                     | _ \<Rightarrow> v) vs)
      else Inl (ValueError ''astype(int)''))"

definition astype_bool :: "cell \<Rightarrow> cell" where
  "astype_bool v =
     BoolV (case v of Null \<Rightarrow> True | StrV s \<Rightarrow> s \<noteq> [] | IntV n \<Rightarrow> n \<noteq> 0 | BoolV b \<Rightarrow> b
                    | NumV x \<Rightarrow> x \<noteq> 0 | TsV _ \<Rightarrow> True)"

definition fill_key :: "string \<Rightarrow> frame \<Rightarrow> error + frame" where
  \<comment> \<open>\<open>fact[c] = fact[c].fillna(UNKNOWN_ID).astype(int)\<close>\<close>
  "fill_key c fact_df =
     (case astype_int (fillna (IntV UNKNOWN_ID) (getcol c fact_df)) of
        Inl e \<Rightarrow> Inl e
      | Inr vs \<Rightarrow> Inr (setitem c vs fact_df))"

definition to_flag :: "(cell \<Rightarrow> cell) \<Rightarrow> string \<Rightarrow> frame \<Rightarrow> frame" where
  \<comment> \<open>\<open>fact[c] = pd.to_numeric(fact[c], errors="coerce").fillna(0).astype(bool)\<close>, with
     pandas' cell-wise \<open>to_numeric\<close> as a parameter\<close>
  "to_flag to_numeric c fact_df =
     setitem c (map astype_bool (fillna (IntV 0) (map to_numeric (getcol c fact_df)))) fact_df"

definition fact_columns :: "string list" where
  "fact_columns = [''event_id'', ''date_id'', ''track_id'', ''episode_id'', ''device_id'',
     ''location_id'', ''ms_played'', ''skipped'', ''shuffle'', ''offline'', ''incognito_mode'']"

definition create_fact_table :: "(cell \<Rightarrow> cell) \<Rightarrow> frame \<Rightarrow> error + frame" where
  "create_fact_table to_numeric df =
     (if ''ts'' \<notin> set (columns df) then Inl (KeyError ''ts'')
      else if \<not> datetimelike (getcol ''ts'' df) then Inl (AttributeError ''dt'')
      else
        (let temp = df;
             temp = setitem ''date_id'' (map date_id_of (getcol ''ts'' temp)) temp
         in case missing_cols fact_columns temp of
              c # _ \<Rightarrow> Inl (KeyError c)
            | [] \<Rightarrow>
              (let fact_df = select fact_columns temp in
               case fill_key ''track_id'' fact_df of Inl e \<Rightarrow> Inl e | Inr fact_df \<Rightarrow>
               case fill_key ''episode_id'' fact_df of Inl e \<Rightarrow> Inl e | Inr fact_df \<Rightarrow>
               case fill_key ''device_id'' fact_df of Inl e \<Rightarrow> Inl e | Inr fact_df \<Rightarrow>
               case fill_key ''location_id'' fact_df of Inl e \<Rightarrow> Inl e | Inr fact_df \<Rightarrow>
               Inr (foldl (\<lambda>fact_df col. if col \<in> set (columns fact_df)
                                        then to_flag to_numeric col fact_df else fact_df)
                      fact_df [''skipped'', ''shuffle'', ''offline'', ''incognito_mode'']))))"

section \<open>The transform of ReadProcess.main\<close>

record tables =
  tbl_dim_date :: frame
  tbl_dim_device :: frame
  tbl_dim_track :: frame
  tbl_dim_episode :: frame
  tbl_dim_location :: frame
  tbl_fact_table :: frame

definition merge_keys :: "frame \<Rightarrow> frame \<Rightarrow> frame \<Rightarrow> frame \<Rightarrow> frame \<Rightarrow> frame" where
  \<comment> \<open>the four left joins of \<open>main\<close>, each against the natural key and the id only\<close>
  "merge_keys df dim_device dim_track dim_episode dim_location =
     (let df = merge_left ''platform'' df (select [''platform'', ''device_id''] dim_device);
          df = merge_left ''spotify_track_uri'' df
                 (select [''spotify_track_uri'', ''track_id''] dim_track);
          df = merge_left ''spotify_episode_uri'' df
                 (select [''spotify_episode_uri'', ''episode_id''] dim_episode);
          df = merge_left ''ip_addr'' df (select [''ip_addr'', ''location_id''] dim_location)
      in df)"

definition build_tables :: "(cell \<Rightarrow> cell) \<Rightarrow> frame \<Rightarrow> error + tables" where
  \<comment> \<open>\<open>main\<close> from the cleaned table to the six tables it saves\<close>
  "build_tables to_numeric df =
     (case create_dim_date df of Inl e \<Rightarrow> Inl e | Inr dim_date \<Rightarrow>
      case create_dim_device df of Inl e \<Rightarrow> Inl e | Inr dim_device \<Rightarrow>
      case create_dim_track df of Inl e \<Rightarrow> Inl e | Inr dim_track \<Rightarrow>
      case create_dim_episode df of Inl e \<Rightarrow> Inl e | Inr dim_episode \<Rightarrow>
      case create_dim_location df of Inl e \<Rightarrow> Inl e | Inr dim_location \<Rightarrow>
      case create_fact_table to_numeric
             (merge_keys df dim_device dim_track dim_episode dim_location) of
        Inl e \<Rightarrow> Inl e
      | Inr fact_df \<Rightarrow>
          Inr \<lparr>tbl_dim_date = dim_date, tbl_dim_device = dim_device, tbl_dim_track = dim_track,
               tbl_dim_episode = dim_episode, tbl_dim_location = dim_location, tbl_fact_table = fact_df\<rparr>)"


section \<open>Sample inputs\<close>

definition small_raw :: frame where
  \<comment> \<open>two records whose audiobook column is empty, with index labels left by a filter\<close>
  "small_raw =
     \<lparr>columns = [''platform'', ''audiobook_title''],
      rows = [(3, mk_row [''platform'', ''audiobook_title''] [StrV ''ios'', Null]),
              (7, mk_row [''platform'', ''audiobook_title''] [Null, Null])]\<rparr>"

definition keyed_dimension :: "string \<Rightarrow> string \<Rightarrow> cell \<Rightarrow> frame \<Rightarrow> bool" where
  "keyed_dimension key idc kv d =
     (getcol idc d = IntV UNKNOWN_ID # map (\<lambda>i. IntV (int i)) [0..<length (rows d) - 1]
      \<and> hd (getcol key d) = kv \<and> distinct (map key_norm (tl (getcol key d))))"

definition resolved :: "frame \<Rightarrow> string \<Rightarrow> string \<Rightarrow> row \<Rightarrow> row \<Rightarrow> bool" where
  \<comment> \<open>row \<open>\<rho>\<close> carries, for the event \<open>l\<close>, the id of a row of \<open>D\<close> with the event's key,
     or a missing id when \<open>D\<close> has no such row\<close>
  "resolved D k idc \<rho> l =
     ((\<rho> idc = Null \<and> (\<forall>d \<in> set (map snd (rows D)). key_norm (d k) \<noteq> key_norm (l k)))
      \<or> (\<exists>d \<in> set (map snd (rows D)). key_norm (d k) = key_norm (l k) \<and> \<rho> idc = d idc))"

section \<open>Matching without regard to case\<close>

text \<open>The rule of the specification, stated without the code's lowering: a pattern of small
  letters occurs in a text without regard to case when some contiguous run of the text equals
  it letter by letter, each letter as it is or as its capital.\<close>

definition capital_of :: "char \<Rightarrow> char \<Rightarrow> bool" where
  "capital_of a b = (97 \<le> (of_char b :: nat) \<and> (of_char b :: nat) \<le> 122 \<and> (of_char a :: nat) + 32 = of_char b)"

definition occurs_ignoring_case :: "string \<Rightarrow> string \<Rightarrow> bool" where
  "occurs_ignoring_case pat s =
     (\<exists>ps u ss. s = ps @ u @ ss \<and> list_all2 (\<lambda>a b. a = b \<or> capital_of a b) u pat)"

definition flag_pass :: "(cell \<Rightarrow> cell) \<Rightarrow> frame \<Rightarrow> frame" where
  "flag_pass tn f = foldl (\<lambda>fact_df col. if col \<in> set (columns fact_df)
                                        then to_flag tn col fact_df else fact_df)
                      f [''skipped'', ''shuffle'', ''offline'', ''incognito_mode'']"

definition key_link :: "frame \<Rightarrow> string \<Rightarrow> string \<Rightarrow> cell \<Rightarrow> row \<Rightarrow> bool" where
  \<comment> \<open>\<open>v\<close> is the id of a row of the dimension \<open>D\<close> whose natural key is the event's, or the
     unknown id when \<open>D\<close> has no row with that key\<close>
  "key_link D k idc v l =
     ((v = IntV UNKNOWN_ID \<and> (\<forall>d \<in> set (map snd (rows D)). key_norm (d k) \<noteq> key_norm (l k)))
      \<or> (\<exists>d \<in> set (map snd (rows D)). key_norm (d k) = key_norm (l k) \<and> v = d idc))"

definition key_cell :: "cell \<Rightarrow> bool" where
  "key_cell v = (case v of Null \<Rightarrow> True | IntV m \<Rightarrow> int64 m | _ \<Rightarrow> False)"

definition export_columns :: "string list" where
  "export_columns = [''ts'', ''platform'', ''spotify_track_uri'', ''master_metadata_track_name'',
     ''master_metadata_album_artist_name'', ''master_metadata_album_album_name'',
     ''spotify_episode_uri'', ''episode_name'', ''episode_show_name'', ''ip_addr'',
     ''conn_country'', ''event_id'', ''ms_played'', ''skipped'', ''shuffle'', ''offline'',
     ''incognito_mode'']"

definition export_schema :: "frame \<Rightarrow> bool" where
  \<comment> \<open>a cleaned table of the streaming-history export: the columns the pipeline reads are
     there, the four id columns are not yet, the timestamps were parsed\<close>
  "export_schema df =
     (list_all (\<lambda>c. c \<in> set (columns df)) export_columns
      \<and> list_all (\<lambda>c. c \<notin> set (columns df)) [''device_id'', ''track_id'', ''episode_id'', ''location_id'']
      \<and> datetimelike (getcol ''ts'' df)
      \<and> length (rows df) < 2 ^ 63)"

definition raw_columns :: "string list" where
  "raw_columns = [''ts'', ''platform'', ''ms_played'', ''conn_country'', ''ip_addr'',
     ''master_metadata_track_name'', ''master_metadata_album_artist_name'',
     ''master_metadata_album_album_name'', ''spotify_track_uri'', ''episode_name'',
     ''episode_show_name'', ''spotify_episode_uri'', ''audiobook_title'',
     ''shuffle'', ''skipped'', ''offline'', ''incognito_mode'']"

definition sample_raw :: frame where
  \<comment> \<open>a played track, then a record with no platform, no track and no episode\<close>
  "sample_raw =
     \<lparr>columns = raw_columns,
      rows = [(0, mk_row raw_columns
                 [TsV \<lparr>ts_year = 2024, ts_month = 1, ts_day = 1, ts_hour = 9, ts_subhour = 5\<rparr>,
                  StrV ''iOS 15'', IntV 1000, StrV ''ES'', StrV ''8.8.8.8'',
                  StrV ''Song'', StrV ''Artist'', StrV ''Album'', StrV ''spotify:track:1'',
                  Null, Null, Null, Null, BoolV False, BoolV True, Null, BoolV False]),
              (1, mk_row raw_columns
                 [TsV \<lparr>ts_year = 2024, ts_month = 1, ts_day = 1, ts_hour = 10, ts_subhour = 0\<rparr>,
                  Null, IntV 0, StrV ''ES'', StrV ''10.0.0.1'',
                  Null, Null, Null, Null, Null, Null, Null, Null,
                  BoolV False, BoolV False, BoolV False, BoolV False])]\<rparr>"

definition collision_raw :: frame where
  \<comment> \<open>one record whose address is the placeholder of the location dimension\<close>
  "collision_raw =
     \<lparr>columns = raw_columns,
      rows = [(0, mk_row raw_columns
                 [TsV \<lparr>ts_year = 2024, ts_month = 1, ts_day = 1, ts_hour = 9, ts_subhour = 5\<rparr>,
                  StrV ''iOS 15'', IntV 1000, StrV ''ES'', StrV ''0.0.0.0'',
                  Null, Null, Null, Null, Null, Null, Null, Null,
                  BoolV False, BoolV True, Null, BoolV False])]\<rparr>"

section \<open>Properties\<close>

subsection \<open>Strings and cells\<close>

lemma str_in_sublist: "str_in pat s = sublist pat s"
  by (induction s) (auto simp: sublist_Cons_right)

lemma mk_row_map: "mk_row cs (map r cs) c = (if c \<in> set cs then r c else Null)"
  by (simp add: mk_row_def map_of_zip_map)

lemma restrict_row_apply: "restrict_row cs r c = (if c \<in> set cs then r c else Null)"
  by (simp add: restrict_row_def mk_row_map)

lemma first_seen_keys:
  "distinct (map key (first_seen key seen xs))
   \<and> set (map key (first_seen key seen xs)) = set (map key xs) - set seen"
  by (induction xs arbitrary: seen) auto

lemma first_seen_subset: "set (first_seen key seen xs) \<subseteq> set xs"
  by (induction xs arbitrary: seen) auto

lemma getcol_alt: "getcol c df = map (\<lambda>r. r c) (map snd (rows df))"
  by (simp add: getcol_def o_def)

lemma cells_reset_index: "map snd (rows (reset_index df)) = map snd (rows df)"
  by (simp add: reset_index_def)

lemma getcol_reset_index: "getcol c (reset_index df) = getcol c df"
  by (simp only: getcol_alt cells_reset_index)

lemma index_reset_index: "index (reset_index df) = map int [0..<length (rows df)]"
  by (simp add: reset_index_def index_def)

lemma columns_reset_index: "columns (reset_index df) = columns df"
  by (simp add: reset_index_def)

lemma length_rows_reset_index: "length (rows (reset_index df)) = length (rows df)"
  by (simp add: reset_index_def)

lemma length_getcol: "length (getcol c df) = length (rows df)"
  by (simp add: getcol_def)

lemma getcol_setitem_same:
  "length vs = length (rows df) \<Longrightarrow> getcol c (setitem c vs df) = vs"
  by (simp add: getcol_def setitem_def o_def split_def map_snd_zip)

lemma getcol_setitem_other:
  "length vs = length (rows df) \<Longrightarrow> c' \<noteq> c \<Longrightarrow> getcol c' (setitem c vs df) = getcol c' df"
proof -
  assume a: "length vs = length (rows df)" "c' \<noteq> c"
  have "map (\<lambda>x. snd (fst x) c') (zip (rows df) vs) = map (\<lambda>r. snd r c') (map fst (zip (rows df) vs))"
    by (simp add: o_def)
  also have "\<dots> = map (\<lambda>r. snd r c') (rows df)" using a by simp
  finally show ?thesis using a by (simp add: getcol_def setitem_def o_def split_def)
qed

lemma length_rows_setitem:
  "length vs = length (rows df) \<Longrightarrow> length (rows (setitem c vs df)) = length (rows df)"
  by (simp add: setitem_def)

lemma columns_setitem:
  "columns (setitem c vs df) = (if c \<in> set (columns df) then columns df else columns df @ [c])"
  by (simp add: setitem_def)

lemma getcol_select:
  "getcol c (select cs df) = (if c \<in> set cs then getcol c df else map (\<lambda>_. Null) (rows df))"
  by (simp add: getcol_def select_def restrict_row_apply o_def)

lemma getcol_drop_duplicates_key:
  "distinct (map key_norm (getcol k (drop_duplicates k df)))
   \<and> key_norm ` set (getcol k (drop_duplicates k df)) = key_norm ` set (getcol k df)
   \<and> set (getcol k (drop_duplicates k df)) \<subseteq> set (getcol k df)"
proof -
  have a: "map key_norm (getcol k X) = map (\<lambda>r. key_norm (snd r k)) (rows X)" for X
    by (simp add: getcol_def o_def)
  have b: "rows (drop_duplicates k df) = first_seen (\<lambda>r. key_norm (snd r k)) [] (rows df)"
    by (simp add: drop_duplicates_def)
  have "set (rows (drop_duplicates k df)) \<subseteq> set (rows df)"
    unfolding b by (rule first_seen_subset)
  then have c: "set (getcol k (drop_duplicates k df)) \<subseteq> set (getcol k df)"
    by (auto simp: getcol_def)
  have d: "key_norm ` set (getcol k X) = set (map key_norm (getcol k X))" for X by simp
  show ?thesis
    using first_seen_keys[of "\<lambda>r. key_norm (snd r k)" "[]" "rows df"] c
    unfolding d a b by simp
qed

lemma key_norm_Null: "key_norm v = Null \<longleftrightarrow> v = Null"
  by (cases v) simp_all

lemma key_norm_StrV: "key_norm v = StrV s \<longleftrightarrow> v = StrV s"
  by (cases v) simp_all

lemma getcol_concat2:
  "c \<in> set (columns a) \<Longrightarrow> c \<in> set (columns b) \<Longrightarrow>
   getcol c (concat_frames [a, b]) = getcol c a @ getcol c b"
  by (simp add: concat_frames_def getcol_reset_index) (simp add: getcol_def restrict_row_apply o_def)

lemma length_rows_concat2:
  "length (rows (concat_frames [a, b])) = length (rows a) + length (rows b)"
  by (simp add: concat_frames_def length_rows_reset_index)

lemma rows_from_records1: "rows (from_records [r]) = [(0, mk_row (map fst r) (map snd r))]"
  by (simp add: from_records_def)

lemma index_setitem: "length vs = length (rows df) \<Longrightarrow> index (setitem c vs df) = index df"
proof -
  assume a: "length vs = length (rows df)"
  have "map (\<lambda>x. fst (fst x)) (zip (rows df) vs) = map fst (map fst (zip (rows df) vs))"
    by (simp add: o_def)
  also have "\<dots> = map fst (rows df)" using a by simp
  finally show ?thesis by (simp add: index_def setitem_def o_def split_def)
qed

lemma mk_row_ren:
  "\<forall>c\<in>set cols. ren c = k \<longrightarrow> c = k \<Longrightarrow>
   mk_row (map ren cols) (map r cols) k = (if k \<in> ren ` set cols then r k else Null)"
  by (induction cols) (auto simp: mk_row_def)

lemma rows_reset_index_nth:
  "i < length (rows df) \<Longrightarrow> rows (reset_index df) ! i = (int i, snd (rows df ! i))"
  by (simp add: reset_index_def)

lemma rows_setitem_nth:
  "length vs = length (rows df) \<Longrightarrow> i < length (rows df) \<Longrightarrow>
   rows (setitem c vs df) ! i = (fst (rows df ! i), (snd (rows df ! i))(c := vs ! i))"
  by (simp add: setitem_def)

subsection \<open>Cleaning\<close>

text \<open>C8: the cleaner drops the columns whose name holds the audiobook marker exactly when
  every cell of all of them is missing, and keeps them all otherwise; then \<open>event_id\<close>
  is the zero-based position of each row, the other kept cells unchanged.\<close>

theorem clean_data_spec:
  "let grp = [c \<leftarrow> columns df. sublist ''audiobook'' c];
       all_missing = (\<forall>c \<in> set grp. \<forall>r \<in> set (rows df). snd r c = Null);
       kept = (if all_missing then [c \<leftarrow> columns df. \<not> sublist ''audiobook'' c] else columns df);
       out = clean_data df
   in columns out = (if ''event_id'' \<in> set kept then kept else kept @ [''event_id''])
    \<and> length (rows out) = length (rows df)
    \<and> (\<forall>i < length (rows df). snd (rows out ! i) ''event_id'' = IntV (int i)
          \<and> (\<forall>c \<in> set kept. c \<noteq> ''event_id'' \<longrightarrow> snd (rows out ! i) c = snd (rows df ! i) c))"
proof -
  define grp where "grp = [c \<leftarrow> columns df. sublist ''audiobook'' c]"
  define all_missing where "all_missing = (\<forall>c \<in> set grp. \<forall>r \<in> set (rows df). snd r c = Null)"
  define kept where "kept = (if all_missing then [c \<leftarrow> columns df. \<not> sublist ''audiobook'' c] else columns df)"
  define mid where "mid = (if grp \<noteq> [] \<and> all_missing then drop_cols grp df else df)"
  have cond: "list_all (\<lambda>col. list_all (\<lambda>v. v = Null) (getcol col df)) grp = all_missing"
    by (auto simp: all_missing_def list_all_iff getcol_def)
  have cd: "clean_data df = setitem ''event_id'' (map IntV (index (reset_index mid))) (reset_index mid)"
  proof -
    have g: "[col \<leftarrow> columns df. str_in AUDIOBOOK_COLUMNS_PATTERN col] = grp"
      by (simp add: grp_def str_in_sublist AUDIOBOOK_COLUMNS_PATTERN_def)
    show ?thesis unfolding clean_data_def Let_def g cond mid_def by simp
  qed
  have keptcols: "columns mid = kept"
  proof (cases "grp = []")
    case True
    then have "[c \<leftarrow> columns df. \<not> sublist ''audiobook'' c] = columns df"
      by (auto simp: grp_def filter_empty_conv filter_id_conv)
    with True show ?thesis by (simp add: mid_def kept_def)
  next
    case False
    have "[c \<leftarrow> columns df. c \<notin> set grp] = [c \<leftarrow> columns df. \<not> sublist ''audiobook'' c]"
      by (rule filter_cong) (auto simp: grp_def)
    with False show ?thesis by (simp add: mid_def kept_def drop_cols_def select_def)
  qed
  have len: "length (rows mid) = length (rows df)"
    by (simp add: mid_def drop_cols_def select_def)
  have cellmid: "snd (rows mid ! i) c = snd (rows df ! i) c" if "i < length (rows df)" "c \<in> set kept" for i c
    using that keptcols by (auto simp: mid_def drop_cols_def select_def restrict_row_apply split: if_splits)
  have lenidx: "length (map IntV (index (reset_index mid))) = length (rows (reset_index mid))"
    by (simp add: index_def)
  have 1: "columns (clean_data df) = (if ''event_id'' \<in> set kept then kept else kept @ [''event_id''])"
    by (simp add: cd setitem_def columns_reset_index keptcols)
  have 2: "length (rows (clean_data df)) = length (rows df)"
    by (simp add: cd length_rows_setitem[OF lenidx] length_rows_reset_index len)
  have 3: "snd (rows (clean_data df) ! i) ''event_id'' = IntV (int i)
          \<and> (\<forall>c \<in> set kept. c \<noteq> ''event_id'' \<longrightarrow> snd (rows (clean_data df) ! i) c = snd (rows df ! i) c)"
    if "i < length (rows df)" for i
  proof -
    have i: "i < length (rows (reset_index mid))" using that by (simp add: length_rows_reset_index len)
    have "rows (clean_data df) ! i = (int i, (snd (rows mid ! i))(''event_id'' := IntV (int i)))"
      using i that unfolding cd rows_setitem_nth[OF lenidx i]
      by (simp add: rows_reset_index_nth len index_reset_index length_rows_reset_index)
    then show ?thesis using cellmid[OF that] by simp
  qed
  show ?thesis
    unfolding Let_def grp_def[symmetric] all_missing_def[symmetric] kept_def[symmetric]
    using 1 2 3 by blast
qed

theorem clean_data_spec_witness:
  "columns (clean_data small_raw) = [''platform'', ''event_id'']
   \<and> length (rows (clean_data small_raw)) = 2
   \<and> snd (rows (clean_data small_raw) ! 1) ''event_id'' = IntV 1
   \<and> snd (rows (clean_data small_raw) ! 0) ''platform'' = StrV ''ios''"
proof -
  have g: "[c \<leftarrow> columns small_raw. sublist ''audiobook'' c] = [''audiobook_title'']"
    by (simp add: small_raw_def str_in_sublist[symmetric])
  have k: "[c \<leftarrow> columns small_raw. \<not> sublist ''audiobook'' c] = [''platform'']"
    by (simp add: small_raw_def str_in_sublist[symmetric])
  have m: "\<forall>c \<in> set [''audiobook_title'']. \<forall>r \<in> set (rows small_raw). snd r c = Null"
    by (simp add: small_raw_def mk_row_def)
  have r: "rows small_raw = [(3, mk_row [''platform'', ''audiobook_title''] [StrV ''ios'', Null]),
              (7, mk_row [''platform'', ''audiobook_title''] [Null, Null])]"
    by (simp add: small_raw_def)
  show ?thesis
    using clean_data_spec[of small_raw] m unfolding Let_def g k
    by (simp add: r mk_row_def)
qed

lemma rows_rename_cols: "map fst (rows (rename_cols m df)) = map fst (rows df)"
  by (simp add: rename_cols_def Let_def o_def)

lemma index_rename_cols: "index (rename_cols m df) = index df"
  by (simp add: index_def rows_rename_cols)

lemma length_rows_rename_cols: "length (rows (rename_cols m df)) = length (rows df)"
  by (simp add: rename_cols_def Let_def)

lemma columns_rename_cols:
  "columns (rename_cols m df) = map (\<lambda>c. case map_of m c of Some c' \<Rightarrow> c' | None \<Rightarrow> c) (columns df)"
  by (simp add: rename_cols_def Let_def)

lemma getcol_rename_cols_fixed:
  assumes "k \<in> set (columns df)" "map_of m k = None" "k \<notin> snd ` set m"
  shows "getcol k (rename_cols m df) = getcol k df"
proof -
  define ren where "ren = (\<lambda>c. case map_of m c of Some c' \<Rightarrow> c' | None \<Rightarrow> c)"
  have inj: "\<forall>c\<in>set (columns df). ren c = k \<longrightarrow> c = k"
  proof (intro ballI impI)
    fix c assume "ren c = k"
    show "c = k"
    proof (cases "map_of m c")
      case None
      with \<open>ren c = k\<close> show ?thesis by (simp add: ren_def)
    next
      case (Some c')
      with \<open>ren c = k\<close> have "c' = k" by (simp add: ren_def)
      with Some have "(c, k) \<in> set m" by (simp add: map_of_SomeD)
      then have "k \<in> snd ` set m" by force
      with assms(3) show ?thesis by simp
    qed
  qed
  have "ren k = k" using assms(2) by (simp add: ren_def)
  then have "k \<in> ren ` set (columns df)" using assms(1) by force
  then have "mk_row (map ren (columns df)) (map r (columns df)) k = r k" for r
    using mk_row_ren[OF inj, of r] by simp
  then show ?thesis by (simp add: getcol_def rename_cols_def Let_def o_def ren_def[symmetric])
qed

lemma getcol_from_records1:
  "getcol c (from_records [r]) = [mk_row (map fst r) (map snd r) c]"
  by (simp add: getcol_def from_records_def)

lemma set_first_seen_id: "set (first_seen id [] xs) = set xs"
  using first_seen_keys[of id "[]" xs] by simp

lemma columns_from_records1: "set (columns (from_records [r])) = fst ` set r"
  by (simp add: from_records_def set_first_seen_id)

lemma dimension_shape:
  assumes idx: "index B = map int [0..<length (rows B)]"
    and k: "k \<in> set (columns B)" "k \<in> fst ` set r" "idc \<in> fst ` set r" "k \<noteq> idc"
    and D: "D = concat_frames [from_records [r], setitem idc (map IntV (index B)) B]"
  shows "getcol idc D = mk_row (map fst r) (map snd r) idc # map (\<lambda>i. IntV (int i)) [0..<length (rows B)]"
    and "getcol k D = mk_row (map fst r) (map snd r) k # getcol k B"
    and "length (rows D) = Suc (length (rows B))"
proof -
  let ?S = "setitem idc (map IntV (index B)) B"
  have len: "length (map IntV (index B)) = length (rows B)" by (simp add: index_def)
  have c1: "idc \<in> set (columns (from_records [r]))" "k \<in> set (columns (from_records [r]))"
    using k by (simp_all add: columns_from_records1)
  have c2: "idc \<in> set (columns ?S)" "k \<in> set (columns ?S)"
    using k by (simp_all add: columns_setitem)
  have g1: "getcol idc ?S = map (\<lambda>i. IntV (int i)) [0..<length (rows B)]"
    unfolding getcol_setitem_same[OF len] by (simp add: idx o_def)
  have g2: "getcol k ?S = getcol k B"
    using k by (simp add: getcol_setitem_other[OF len])
  show "getcol idc D = mk_row (map fst r) (map snd r) idc # map (\<lambda>i. IntV (int i)) [0..<length (rows B)]"
    unfolding D getcol_concat2[OF c1(1) c2(1)] g1 by (simp add: getcol_from_records1)
  show "getcol k D = mk_row (map fst r) (map snd r) k # getcol k B"
    unfolding D getcol_concat2[OF c1(2) c2(2)] g2 by (simp add: getcol_from_records1)
  show "length (rows D) = Suc (length (rows B))"
    unfolding D by (simp add: length_rows_concat2 length_rows_setitem[OF len] from_records_def)
qed

lemma columns_drop_duplicates: "columns (drop_duplicates k df) = columns df"
  by (simp add: drop_duplicates_def)

lemma columns_select: "columns (select cs df) = cs"
  by (simp add: select_def)

lemma length_rows_select: "length (rows (select cs df)) = length (rows df)"
  by (simp add: select_def)

lemma columns_filter_rows: "columns (filter_rows P df) = columns df"
  by (simp add: filter_rows_def)

lemma getcol_filter_rows: "getcol c (filter_rows P df) = map (\<lambda>r. r c) (filter P (map snd (rows df)))"
  by (simp add: getcol_def filter_rows_def filter_map o_def)

lemma keyed_dimensionI:
  assumes idx: "index B = map int [0..<length (rows B)]"
    and k: "k \<in> set (columns B)" "k \<in> fst ` set r" "idc \<in> fst ` set r" "k \<noteq> idc"
    and D: "D = concat_frames [from_records [r], setitem idc (map IntV (index B)) B]"
    and r: "mk_row (map fst r) (map snd r) idc = IntV UNKNOWN_ID" "mk_row (map fst r) (map snd r) k = kv"
    and dist: "distinct (map key_norm (getcol k B))"
  shows "keyed_dimension k idc kv D \<and> tl (getcol k D) = getcol k B"
  using dimension_shape[OF idx k D] r dist by (simp add: keyed_dimension_def)

lemma dedup_step:
  assumes "B = reset_index (drop_duplicates k S)"
  shows "distinct (map key_norm (getcol k B))"
    and "key_norm ` set (getcol k B) = key_norm ` set (getcol k S)"
    and "set (getcol k B) \<subseteq> set (getcol k S)"
  using getcol_drop_duplicates_key[of k S] by (simp_all add: assms getcol_reset_index)

lemma reset_index_ok: "index (reset_index X) = map int [0..<length (rows (reset_index X))]"
  by (simp add: index_reset_index length_rows_reset_index)

lemma dim_device_shape:
  assumes "create_dim_device df = Inr d"
  shows "keyed_dimension ''platform'' ''device_id'' (StrV ''Unknown'') d"
    and "key_norm ` set (tl (getcol ''platform'' d)) = key_norm ` set (getcol ''platform'' df)"
    and "set (tl (getcol ''platform'' d)) \<subseteq> set (getcol ''platform'' df)"
proof -
  define temp where "temp = setitem ''device_type'' (map classify_cell (getcol ''platform'' df)) df"
  define S where "S = select [''platform'', ''device_type''] temp"
  define B where "B = reset_index (drop_duplicates ''platform'' S)"
  define r where "r = [(''platform'', StrV UNKNOWN_VALUE), (''device_type'', StrV ''unknown''), (''device_id'', IntV UNKNOWN_ID)]"
  have D: "d = concat_frames [from_records [r], setitem ''device_id'' (map IntV (index B)) B]"
    using assms by (simp add: create_dim_device_def Let_def temp_def S_def B_def r_def split: if_splits)
  have len: "length (map classify_cell (getcol ''platform'' df)) = length (rows df)"
    by (simp add: length_getcol)
  have gp: "getcol ''platform'' S = getcol ''platform'' df"
    by (simp add: S_def getcol_select temp_def getcol_setitem_other[OF len])
  note kB = dedup_step[OF B_def, unfolded gp]
  have kd: "keyed_dimension ''platform'' ''device_id'' (StrV ''Unknown'') d
        \<and> tl (getcol ''platform'' d) = getcol ''platform'' B"
    by (rule keyed_dimensionI[OF _ _ _ _ _ D _ _ kB(1)])
       (simp_all add: B_def S_def reset_index_ok columns_reset_index columns_drop_duplicates columns_select
          r_def mk_row_def UNKNOWN_VALUE_def)
  show "keyed_dimension ''platform'' ''device_id'' (StrV ''Unknown'') d" using kd by simp
  show "key_norm ` set (tl (getcol ''platform'' d)) = key_norm ` set (getcol ''platform'' df)"
    using kd kB(2) by simp
  show "set (tl (getcol ''platform'' d)) \<subseteq> set (getcol ''platform'' df)"
    using kd kB(3) by simp
qed

lemma dim_location_shape:
  assumes "create_dim_location df = Inr d"
  shows "keyed_dimension ''ip_addr'' ''location_id'' (StrV ''0.0.0.0'') d"
    and "key_norm ` set (tl (getcol ''ip_addr'' d)) = key_norm ` set (getcol ''ip_addr'' df)"
    and "set (tl (getcol ''ip_addr'' d)) \<subseteq> set (getcol ''ip_addr'' df)"
proof -
  define S where "S = select [''ip_addr'', ''conn_country''] df"
  define B where "B = reset_index (drop_duplicates ''ip_addr'' S)"
  define r where "r = [(''ip_addr'', StrV ''0.0.0.0''), (''conn_country'', StrV ''XX''), (''location_id'', IntV UNKNOWN_ID)]"
  have D: "d = concat_frames [from_records [r], setitem ''location_id'' (map IntV (index B)) B]"
    using assms by (simp add: create_dim_location_def Let_def S_def B_def r_def split: list.splits)
  have gp: "getcol ''ip_addr'' S = getcol ''ip_addr'' df"
    by (simp add: S_def getcol_select)
  note kB = dedup_step[OF B_def, unfolded gp]
  have kd: "keyed_dimension ''ip_addr'' ''location_id'' (StrV ''0.0.0.0'') d
        \<and> tl (getcol ''ip_addr'' d) = getcol ''ip_addr'' B"
    by (rule keyed_dimensionI[OF _ _ _ _ _ D _ _ kB(1)])
       (simp_all add: B_def S_def reset_index_ok columns_reset_index columns_drop_duplicates columns_select
          r_def mk_row_def)
  show "keyed_dimension ''ip_addr'' ''location_id'' (StrV ''0.0.0.0'') d" using kd by simp
  show "key_norm ` set (tl (getcol ''ip_addr'' d)) = key_norm ` set (getcol ''ip_addr'' df)"
    using kd kB(2) by simp
  show "set (tl (getcol ''ip_addr'' d)) \<subseteq> set (getcol ''ip_addr'' df)"
    using kd kB(3) by simp
qed

lemma dim_track_shape:
  assumes "create_dim_track df = Inr d"
  shows "keyed_dimension ''spotify_track_uri'' ''track_id'' (StrV ''Unknown'') d"
    and "key_norm ` set (tl (getcol ''spotify_track_uri'' d)) = key_norm ` (set (getcol ''spotify_track_uri'' df) - {Null})"
    and "set (tl (getcol ''spotify_track_uri'' d)) \<subseteq> set (getcol ''spotify_track_uri'' df) - {Null}"
proof -
  define cs where "cs = [''spotify_track_uri'', ''master_metadata_track_name'',
     ''master_metadata_album_artist_name'', ''master_metadata_album_album_name'']"
  define m where "m = [(''master_metadata_track_name'', ''track_name''),
     (''master_metadata_album_artist_name'', ''artist_name''),
     (''master_metadata_album_album_name'', ''album_name'')]"
  define music_df where "music_df = filter_rows (\<lambda>r. r ''spotify_track_uri'' \<noteq> Null) df"
  define S where "S = select cs music_df"
  define X where "X = reset_index (drop_duplicates ''spotify_track_uri'' S)"
  define B where "B = rename_cols m X"
  define r where "r = [(''spotify_track_uri'', StrV UNKNOWN_VALUE),
     (''track_name'', StrV ''Non-Music Content''), (''artist_name'', StrV ''N/A''),
     (''album_name'', StrV ''N/A''), (''track_id'', IntV UNKNOWN_ID)]"
  have D: "d = concat_frames [from_records [r], setitem ''track_id'' (map IntV (index B)) B]"
    using assms
    by (simp add: create_dim_track_def Let_def B_def X_def S_def music_df_def m_def cs_def r_def
          split: list.splits)
  have colX: "columns X = cs"
    by (simp add: X_def S_def columns_reset_index columns_drop_duplicates columns_select)
  have gX: "getcol ''spotify_track_uri'' B = getcol ''spotify_track_uri'' X"
    unfolding B_def by (rule getcol_rename_cols_fixed) (simp_all add: colX cs_def m_def)
  have gs: "getcol ''spotify_track_uri'' S
            = map (\<lambda>r. r ''spotify_track_uri'') (filter (\<lambda>r. r ''spotify_track_uri'' \<noteq> Null) (map snd (rows df)))"
    by (simp add: S_def getcol_select cs_def music_df_def getcol_filter_rows)
  have sS: "set (getcol ''spotify_track_uri'' S) = set (getcol ''spotify_track_uri'' df) - {Null}"
    unfolding gs by (auto simp: getcol_def)
  note kX = dedup_step[OF X_def, unfolded sS]
  have kB: "distinct (map key_norm (getcol ''spotify_track_uri'' B))" using kX(1) by (simp add: gX)
  have idx: "index B = map int [0..<length (rows B)]"
    by (simp add: B_def index_rename_cols length_rows_rename_cols X_def reset_index_ok)
  have colB: "''spotify_track_uri'' \<in> set (columns B)"
    by (simp add: B_def columns_rename_cols colX cs_def m_def)
  have kd: "keyed_dimension ''spotify_track_uri'' ''track_id'' (StrV ''Unknown'') d
        \<and> tl (getcol ''spotify_track_uri'' d) = getcol ''spotify_track_uri'' B"
    by (rule keyed_dimensionI[OF idx colB _ _ _ D _ _ kB])
       (simp_all add: r_def mk_row_def UNKNOWN_VALUE_def)
  show "keyed_dimension ''spotify_track_uri'' ''track_id'' (StrV ''Unknown'') d" using kd by simp
  show "key_norm ` set (tl (getcol ''spotify_track_uri'' d)) = key_norm ` (set (getcol ''spotify_track_uri'' df) - {Null})"
    using kd kX(2) by (simp add: gX)
  show "set (tl (getcol ''spotify_track_uri'' d)) \<subseteq> set (getcol ''spotify_track_uri'' df) - {Null}"
    using kd kX(3) by (simp add: gX)
qed

lemma dim_episode_shape:
  assumes "create_dim_episode df = Inr d"
  shows "keyed_dimension ''spotify_episode_uri'' ''episode_id'' (StrV ''Unknown'') d"
    and "key_norm ` set (tl (getcol ''spotify_episode_uri'' d)) = key_norm ` (set (getcol ''spotify_episode_uri'' df) - {Null})"
    and "set (tl (getcol ''spotify_episode_uri'' d)) \<subseteq> set (getcol ''spotify_episode_uri'' df) - {Null}"
proof -
  define cs where "cs = [''spotify_episode_uri'', ''episode_name'', ''episode_show_name'']"
  define m where "m = [(''episode_show_name'', ''show_name'')]"
  define podcast_df where "podcast_df = filter_rows (\<lambda>r. r ''spotify_episode_uri'' \<noteq> Null) df"
  define S where "S = select cs podcast_df"
  define X where "X = reset_index (drop_duplicates ''spotify_episode_uri'' S)"
  define B where "B = rename_cols m X"
  define r where "r = [(''spotify_episode_uri'', StrV UNKNOWN_VALUE),
     (''episode_name'', StrV ''Non-Podcast Content''), (''show_name'', StrV ''N/A''),
     (''episode_id'', IntV UNKNOWN_ID)]"
  have D: "d = concat_frames [from_records [r], setitem ''episode_id'' (map IntV (index B)) B]"
    using assms
    by (simp add: create_dim_episode_def Let_def B_def X_def S_def podcast_df_def m_def cs_def r_def
          split: list.splits)
  have colX: "columns X = cs"
    by (simp add: X_def S_def columns_reset_index columns_drop_duplicates columns_select)
  have gX: "getcol ''spotify_episode_uri'' B = getcol ''spotify_episode_uri'' X"
    unfolding B_def by (rule getcol_rename_cols_fixed) (simp_all add: colX cs_def m_def)
  have gs: "getcol ''spotify_episode_uri'' S
            = map (\<lambda>r. r ''spotify_episode_uri'') (filter (\<lambda>r. r ''spotify_episode_uri'' \<noteq> Null) (map snd (rows df)))"
    by (simp add: S_def getcol_select cs_def podcast_df_def getcol_filter_rows)
  have sS: "set (getcol ''spotify_episode_uri'' S) = set (getcol ''spotify_episode_uri'' df) - {Null}"
    unfolding gs by (auto simp: getcol_def)
  note kX = dedup_step[OF X_def, unfolded sS]
  have kB: "distinct (map key_norm (getcol ''spotify_episode_uri'' B))" using kX(1) by (simp add: gX)
  have idx: "index B = map int [0..<length (rows B)]"
    by (simp add: B_def index_rename_cols length_rows_rename_cols X_def reset_index_ok)
  have colB: "''spotify_episode_uri'' \<in> set (columns B)"
    by (simp add: B_def columns_rename_cols colX cs_def m_def)
  have kd: "keyed_dimension ''spotify_episode_uri'' ''episode_id'' (StrV ''Unknown'') d
        \<and> tl (getcol ''spotify_episode_uri'' d) = getcol ''spotify_episode_uri'' B"
    by (rule keyed_dimensionI[OF idx colB _ _ _ D _ _ kB])
       (simp_all add: r_def mk_row_def UNKNOWN_VALUE_def)
  show "keyed_dimension ''spotify_episode_uri'' ''episode_id'' (StrV ''Unknown'') d" using kd by simp
  show "key_norm ` set (tl (getcol ''spotify_episode_uri'' d)) = key_norm ` (set (getcol ''spotify_episode_uri'' df) - {Null})"
    using kd kX(2) by (simp add: gX)
  show "set (tl (getcol ''spotify_episode_uri'' d)) \<subseteq> set (getcol ''spotify_episode_uri'' df) - {Null}"
    using kd kX(3) by (simp add: gX)
qed

lemma dim_date_shape:
  assumes "create_dim_date df = Inr d"
  shows "columns d = [''date_id'', ''year'', ''month'', ''day'', ''weekday'', ''hour'']
         \<and> distinct (getcol ''date_id'' d)
         \<and> set (getcol ''date_id'' d) = date_id_of ` set (getcol ''ts'' df)"
proof -
  define t1 where "t1 = setitem ''date_id'' (map date_id_of (getcol ''ts'' df)) df"
  define t2 where "t2 = setitem ''year'' (map (dt_num (getcol ''ts'' t1) ts_year) (getcol ''ts'' t1)) t1"
  define t3 where "t3 = setitem ''month'' (map (dt_num (getcol ''ts'' t2) ts_month) (getcol ''ts'' t2)) t2"
  define t4 where "t4 = setitem ''day'' (map (dt_num (getcol ''ts'' t3) ts_day) (getcol ''ts'' t3)) t3"
  define t5 where "t5 = setitem ''weekday'' (map (dt (\<lambda>t. StrV (day_name t))) (getcol ''ts'' t4)) t4"
  define t6 where "t6 = setitem ''hour'' (map (dt_num (getcol ''ts'' t5) ts_hour) (getcol ''ts'' t5)) t5"
  define S where "S = select [''date_id'', ''year'', ''month'', ''day'', ''weekday'', ''hour''] t6"
  have D: "d = reset_index (drop_duplicates ''date_id'' S)"
    using assms
    by (simp add: create_dim_date_def Let_def S_def t6_def t5_def t4_def t3_def t2_def t1_def
          split: if_splits)
  have l1: "length (rows t1) = length (rows df)" by (simp add: t1_def length_rows_setitem length_getcol)
  have l2: "length (rows t2) = length (rows df)" by (simp add: t2_def length_rows_setitem length_getcol l1)
  have l3: "length (rows t3) = length (rows df)" by (simp add: t3_def length_rows_setitem length_getcol l2)
  have l4: "length (rows t4) = length (rows df)" by (simp add: t4_def length_rows_setitem length_getcol l3)
  have l5: "length (rows t5) = length (rows df)" by (simp add: t5_def length_rows_setitem length_getcol l4)
  have g1: "getcol ''date_id'' t1 = map date_id_of (getcol ''ts'' df)"
    by (simp add: t1_def getcol_setitem_same length_getcol)
  have g2: "getcol ''date_id'' t2 = getcol ''date_id'' t1"
    by (simp add: t2_def getcol_setitem_other length_getcol)
  have g3: "getcol ''date_id'' t3 = getcol ''date_id'' t2"
    by (simp add: t3_def getcol_setitem_other length_getcol)
  have g4: "getcol ''date_id'' t4 = getcol ''date_id'' t3"
    by (simp add: t4_def getcol_setitem_other length_getcol)
  have g5: "getcol ''date_id'' t5 = getcol ''date_id'' t4"
    by (simp add: t5_def getcol_setitem_other length_getcol)
  have g6: "getcol ''date_id'' t6 = getcol ''date_id'' t5"
    by (simp add: t6_def getcol_setitem_other length_getcol)
  have gS: "getcol ''date_id'' S = map date_id_of (getcol ''ts'' df)"
    by (simp add: S_def getcol_select g6 g5 g4 g3 g2 g1)
  have kn: "key_norm (date_id_of v) = date_id_of v" for v
    by (cases v) (simp_all add: date_id_of_def dt_def)
  have kn2: "map key_norm (getcol ''date_id'' X) = getcol ''date_id'' X"
    if "set (getcol ''date_id'' X) \<subseteq> set (getcol ''date_id'' S)" for X
  proof (rule map_idI)
    fix v assume "v \<in> set (getcol ''date_id'' X)"
    with that obtain w where "v = date_id_of w" unfolding gS by auto
    then show "key_norm v = v" by (simp add: kn)
  qed
  note kd = dedup_step[OF D]
  have 1: "columns d = [''date_id'', ''year'', ''month'', ''day'', ''weekday'', ''hour'']"
    by (simp add: D columns_reset_index columns_drop_duplicates S_def columns_select)
  have 2: "distinct (getcol ''date_id'' d)" using kd(1) kn2[OF kd(3)] by simp
  have "set (map key_norm (getcol ''date_id'' d)) = set (map key_norm (getcol ''date_id'' S))"
    using kd(2) by simp
  then have 3: "set (getcol ''date_id'' d) = date_id_of ` set (getcol ''ts'' df)"
    unfolding kn2[OF kd(3)] kn2[OF subset_refl] by (simp add: gS)
  from 1 2 3 show ?thesis by blast
qed

lemma cells_merge_left:
  "map snd (rows (merge_left k L R)) =
   concat (map (\<lambda>l. map (\<lambda>r. mk_row (merge_names k L R)
                                  (map l (columns L) @ map r [c \<leftarrow> columns R. c \<noteq> k]))
                          (partners k R l)) (map snd (rows L)))"
  by (simp add: merge_left_def Let_def)

lemma columns_merge_left: "columns (merge_left k L R) = merge_names k L R"
  by (simp add: merge_left_def Let_def)

lemma length_rows_merge_left:
  "length (rows (merge_left k L R)) = sum_list (map (\<lambda>l. length (partners k R l)) (map snd (rows L)))"
  by (simp add: merge_left_def Let_def length_concat o_def)

lemma filter_distinct_le1:
  "distinct (map f xs) \<Longrightarrow> length (filter (\<lambda>x. f x = v) xs) \<le> 1"
  by (induction xs) (auto simp: filter_empty_conv image_iff)

lemma length_partners_distinct:
  assumes "distinct (map key_norm (getcol k R))"
  shows "length (partners k R l) = 1"
proof -
  have "distinct (map (\<lambda>r. key_norm (r k)) (map snd (rows R)))"
    using assms by (simp add: getcol_def o_def)
  then have le: "length [r \<leftarrow> map snd (rows R). key_norm (r k) = key_norm (l k)] \<le> 1"
    by (rule filter_distinct_le1)
  show ?thesis
  proof (cases "[r \<leftarrow> map snd (rows R). key_norm (r k) = key_norm (l k)]")
    case Nil
    then show ?thesis by (simp add: partners_def)
  next
    case (Cons a as)
    with le show ?thesis by (simp add: partners_def)
  qed
qed

lemma length_partners_ge1: "length (partners k R l) \<ge> 1"
  by (cases "[r \<leftarrow> map snd (rows R). key_norm (r k) = key_norm (l k)]") (simp_all add: partners_def)

lemma merge_left_rowcount_distinct:
  "distinct (map key_norm (getcol k R)) \<Longrightarrow> length (rows (merge_left k L R)) = length (rows L)"
  by (simp add: length_rows_merge_left length_partners_distinct sum_list_triv o_def)

lemma merge_left_rowcount_ge: "length (rows (merge_left k L R)) \<ge> length (rows L)"
proof -
  have "sum_list (map (\<lambda>l. length (partners k R l)) xs) \<ge> length xs" for xs
  proof (induction xs)
    case Nil show ?case by simp
  next
    case (Cons a xs)
    then show ?case using length_partners_ge1[of k R a] by simp
  qed
  from this[of "map snd (rows L)"] show ?thesis by (simp add: length_rows_merge_left)
qed

lemma merge_names_select_fresh:
  "idc \<noteq> k \<Longrightarrow> idc \<notin> set (columns L) \<Longrightarrow>
   merge_names k L (select [k, idc] D) = columns L @ [idc]"
proof -
  assume a: "idc \<noteq> k" "idc \<notin> set (columns L)"
  have "map (\<lambda>c. if c = idc \<and> c \<in> set (columns L) then c @ ''_x'' else c) (columns L)
        = map (\<lambda>c. c) (columns L)"
    using a(2) by (intro map_cong) auto
  then show ?thesis using a by (simp add: merge_names_def select_def Let_def)
qed

lemma merge_names_select_overlap:
  assumes "idc \<noteq> k" "idc \<in> set (columns L)"
  shows "idc \<notin> set (merge_names k L (select [k, idc] D))"
proof -
  have "merge_names k L (select [k, idc] D)
        = map (\<lambda>c. if c = idc then c @ ''_x'' else c) (columns L) @ [idc @ ''_y'']"
    using assms by (simp add: merge_names_def select_def Let_def)
  then show ?thesis by auto
qed

lemma mk_row_snoc:
  "mk_row (xs @ [y]) (map l xs @ [v]) c = (if c \<in> set xs then l c else if c = y then v else Null)"
  by (simp add: mk_row_def map_of_zip_map map_add_def split: option.splits)

lemma cells_select: "map snd (rows (select cs D)) = map (restrict_row cs) (map snd (rows D))"
  by (simp add: select_def o_def)

lemma partners_select:
  assumes "idc \<noteq> k" "r \<in> set (partners k (select [k, idc] D) l)"
  shows "(r = (\<lambda>c. Null) \<and> (\<forall>d \<in> set (map snd (rows D)). key_norm (d k) \<noteq> key_norm (l k)))
         \<or> (\<exists>d \<in> set (map snd (rows D)). key_norm (d k) = key_norm (l k) \<and> r idc = d idc)"
proof (cases "[r \<leftarrow> map snd (rows (select [k, idc] D)). key_norm (r k) = key_norm (l k)]")
  case Nil
  then have "r = (\<lambda>c. Null)" using assms(2) by (simp add: partners_def)
  moreover have "\<forall>d \<in> set (map snd (rows D)). key_norm (d k) \<noteq> key_norm (l k)"
  proof
    fix d assume d: "d \<in> set (map snd (rows D))"
    show "key_norm (d k) \<noteq> key_norm (l k)"
    proof
      assume "key_norm (d k) = key_norm (l k)"
      then have "restrict_row [k, idc] d
          \<in> set [r \<leftarrow> map snd (rows (select [k, idc] D)). key_norm (r k) = key_norm (l k)]"
        using d by (auto simp: cells_select restrict_row_apply)
      with Nil show False by simp
    qed
  qed
  ultimately show ?thesis by simp
next
  case (Cons a as)
  then have "r \<in> set [r \<leftarrow> map snd (rows (select [k, idc] D)). key_norm (r k) = key_norm (l k)]"
    using assms(2) by (simp add: partners_def)
  then obtain d where "d \<in> set (map snd (rows D))" "r = restrict_row [k, idc] d"
      "key_norm (r k) = key_norm (l k)"
    by (auto simp: cells_select)
  then show ?thesis by (auto simp: restrict_row_apply)
qed

lemma merge_select_rows:
  assumes "idc \<noteq> k" "idc \<notin> set (columns L)"
    and "\<rho> \<in> set (map snd (rows (merge_left k L (select [k, idc] D))))"
  shows "\<exists>l \<in> set (map snd (rows L)).
           (\<forall>c \<in> set (columns L). \<rho> c = l c)
           \<and> ((\<rho> idc = Null \<and> (\<forall>d \<in> set (map snd (rows D)). key_norm (d k) \<noteq> key_norm (l k)))
                \<or> (\<exists>d \<in> set (map snd (rows D)). key_norm (d k) = key_norm (l k) \<and> \<rho> idc = d idc))"
proof -
  have rc: "[c \<leftarrow> columns (select [k, idc] D). c \<noteq> k] = [idc]"
    using assms(1) by (simp add: select_def)
  from assms(3) obtain l r where l: "l \<in> set (map snd (rows L))"
    and r: "r \<in> set (partners k (select [k, idc] D) l)"
    and rho: "\<rho> = mk_row (columns L @ [idc]) (map l (columns L) @ [r idc])"
    unfolding cells_merge_left rc merge_names_select_fresh[OF assms(1,2)] by auto
  have 1: "\<forall>c \<in> set (columns L). \<rho> c = l c" by (simp add: rho mk_row_snoc)
  have 2: "\<rho> idc = r idc" using assms(2) by (simp add: rho mk_row_snoc)
  from partners_select[OF assms(1) r] 1 2 l show ?thesis by auto
qed

lemma merge_select_step:
  assumes "idc \<noteq> k" "idc \<in> set (columns (merge_left k L (select [k, idc] D)))"
  shows "idc \<notin> set (columns L)"
    and "columns (merge_left k L (select [k, idc] D)) = columns L @ [idc]"
    and "\<rho> \<in> set (map snd (rows (merge_left k L (select [k, idc] D)))) \<Longrightarrow>
         \<exists>l \<in> set (map snd (rows L)). (\<forall>c \<in> set (columns L). \<rho> c = l c) \<and> resolved D k idc \<rho> l"
proof -
  show f: "idc \<notin> set (columns L)"
    using assms merge_names_select_overlap[of idc k L D] by (auto simp: columns_merge_left)
  show "columns (merge_left k L (select [k, idc] D)) = columns L @ [idc]"
    by (simp add: columns_merge_left merge_names_select_fresh[OF assms(1) f])
  show "\<exists>l \<in> set (map snd (rows L)). (\<forall>c \<in> set (columns L). \<rho> c = l c) \<and> resolved D k idc \<rho> l"
    if "\<rho> \<in> set (map snd (rows (merge_left k L (select [k, idc] D))))"
    using merge_select_rows[OF assms(1) f that] unfolding resolved_def by blast
qed

lemma resolved_cong: "l' k = l k \<Longrightarrow> \<rho>' idc = \<rho> idc \<Longrightarrow> resolved D k idc \<rho> l \<Longrightarrow> resolved D k idc \<rho>' l'"
  by (simp add: resolved_def)

lemma merge_keys_rows:
  assumes ids: "''device_id'' \<in> set (columns M)" "''track_id'' \<in> set (columns M)"
      "''episode_id'' \<in> set (columns M)" "''location_id'' \<in> set (columns M)"
    and keys: "''platform'' \<in> set (columns df)" "''spotify_track_uri'' \<in> set (columns df)"
      "''spotify_episode_uri'' \<in> set (columns df)" "''ip_addr'' \<in> set (columns df)"
    and M: "M = merge_keys df Dv Dt De Dl"
    and rho: "\<rho> \<in> set (map snd (rows M))"
  shows "\<exists>l \<in> set (map snd (rows df)).
           (\<forall>c \<in> set (columns df). \<rho> c = l c)
           \<and> resolved Dv ''platform'' ''device_id'' \<rho> l
           \<and> resolved Dt ''spotify_track_uri'' ''track_id'' \<rho> l
           \<and> resolved De ''spotify_episode_uri'' ''episode_id'' \<rho> l
           \<and> resolved Dl ''ip_addr'' ''location_id'' \<rho> l"
    and "columns M = columns df @ [''device_id'', ''track_id'', ''episode_id'', ''location_id'']"
proof -
  define d1 where "d1 = merge_left ''platform'' df (select [''platform'', ''device_id''] Dv)"
  define d2 where "d2 = merge_left ''spotify_track_uri'' d1 (select [''spotify_track_uri'', ''track_id''] Dt)"
  define d3 where "d3 = merge_left ''spotify_episode_uri'' d2 (select [''spotify_episode_uri'', ''episode_id''] De)"
  have M4: "M = merge_left ''ip_addr'' d3 (select [''ip_addr'', ''location_id''] Dl)"
    by (simp add: M merge_keys_def Let_def d1_def d2_def d3_def)
  have n4: "''location_id'' \<noteq> ''ip_addr''" by simp
  have n3: "''episode_id'' \<noteq> ''spotify_episode_uri''" by simp
  have n2: "''track_id'' \<noteq> ''spotify_track_uri''" by simp
  have n1: "''device_id'' \<noteq> ''platform''" by simp
  note s4 = merge_select_step[OF n4 ids(4)[unfolded M4]]
  have c4: "columns M = columns d3 @ [''location_id'']" using s4(2) by (simp add: M4)
  have e3: "''episode_id'' \<in> set (columns d3)" "''track_id'' \<in> set (columns d3)" "''device_id'' \<in> set (columns d3)"
    using ids c4 by simp_all
  note s3 = merge_select_step[OF n3 e3(1)[unfolded d3_def]]
  have c3: "columns d3 = columns d2 @ [''episode_id'']" using s3(2) by (simp add: d3_def)
  have e2: "''track_id'' \<in> set (columns d2)" "''device_id'' \<in> set (columns d2)"
    using e3 c3 by simp_all
  note s2 = merge_select_step[OF n2 e2(1)[unfolded d2_def]]
  have c2: "columns d2 = columns d1 @ [''track_id'']" using s2(2) by (simp add: d2_def)
  have e1: "''device_id'' \<in> set (columns d1)" using e2 c2 by simp
  note s1 = merge_select_step[OF n1 e1[unfolded d1_def]]
  have c1: "columns d1 = columns df @ [''device_id'']" using s1(2) by (simp add: d1_def)
  show "columns M = columns df @ [''device_id'', ''track_id'', ''episode_id'', ''location_id'']"
    by (simp add: c4 c3 c2 c1)
  from s4(3)[OF rho[unfolded M4]] obtain r3 where r3: "r3 \<in> set (map snd (rows d3))"
    "\<forall>c \<in> set (columns d3). \<rho> c = r3 c" "resolved Dl ''ip_addr'' ''location_id'' \<rho> r3" by blast
  from s3(3)[OF r3(1)[unfolded d3_def]] obtain r2 where r2: "r2 \<in> set (map snd (rows d2))"
    "\<forall>c \<in> set (columns d2). r3 c = r2 c" "resolved De ''spotify_episode_uri'' ''episode_id'' r3 r2" by blast
  from s2(3)[OF r2(1)[unfolded d2_def]] obtain r1 where r1: "r1 \<in> set (map snd (rows d1))"
    "\<forall>c \<in> set (columns d1). r2 c = r1 c" "resolved Dt ''spotify_track_uri'' ''track_id'' r2 r1" by blast
  from s1(3)[OF r1(1)[unfolded d1_def]] obtain l where l: "l \<in> set (map snd (rows df))"
    "\<forall>c \<in> set (columns df). r1 c = l c" "resolved Dv ''platform'' ''device_id'' r1 l" by blast
  have a: "\<forall>c \<in> set (columns df). \<rho> c = l c"
    using r3(2) r2(2) r1(2) l(2) by (simp add: c3 c2 c1)
  have k1: "r1 ''spotify_track_uri'' = l ''spotify_track_uri''" "r1 ''spotify_episode_uri'' = l ''spotify_episode_uri''"
    "r1 ''ip_addr'' = l ''ip_addr''"
    using l(2) keys by simp_all
  have k2: "r2 ''spotify_episode_uri'' = l ''spotify_episode_uri''" "r2 ''ip_addr'' = l ''ip_addr''"
    using r1(2) k1 keys by (simp_all add: c1)
  have k3: "r3 ''ip_addr'' = l ''ip_addr''"
    using r2(2) k2 keys by (simp add: c2 c1)
  have i1: "\<rho> ''device_id'' = r1 ''device_id''"
    using r3(2) r2(2) r1(2) by (simp add: c3 c2 c1)
  have i2: "\<rho> ''track_id'' = r2 ''track_id''"
    using r3(2) r2(2) by (simp add: c3 c2)
  have i3: "\<rho> ''episode_id'' = r3 ''episode_id''"
    using r3(2) by (simp add: c3)
  have "resolved Dv ''platform'' ''device_id'' \<rho> l"
    using l(3) i1 by (simp add: resolved_def)
  moreover have "resolved Dt ''spotify_track_uri'' ''track_id'' \<rho> l"
    using r1(3) i2 k1 by (simp add: resolved_def)
  moreover have "resolved De ''spotify_episode_uri'' ''episode_id'' \<rho> l"
    using r2(3) i3 k2 by (simp add: resolved_def)
  moreover have "resolved Dl ''ip_addr'' ''location_id'' \<rho> l"
    using r3(3) k3 by (simp add: resolved_def)
  ultimately show "\<exists>l \<in> set (map snd (rows df)).
           (\<forall>c \<in> set (columns df). \<rho> c = l c)
           \<and> resolved Dv ''platform'' ''device_id'' \<rho> l
           \<and> resolved Dt ''spotify_track_uri'' ''track_id'' \<rho> l
           \<and> resolved De ''spotify_episode_uri'' ''episode_id'' \<rho> l
           \<and> resolved Dl ''ip_addr'' ''location_id'' \<rho> l"
    using l(1) a by blast
qed

lemma lower_char_small:
  assumes "97 \<le> (of_char b :: nat)" "(of_char b :: nat) \<le> 122"
  shows "lower_char a = b \<longleftrightarrow> (a = b \<or> capital_of a b)"
proof (cases "65 \<le> (of_char a :: nat) \<and> (of_char a :: nat) \<le> 90")
  case True
  then have l: "lower_char a = char_of ((of_char a :: nat) + 32)"
    by (simp add: lower_char_def Let_def)
  have ne: "a \<noteq> b" using True assms by auto
  have "char_of ((of_char a :: nat) + 32) = b \<longleftrightarrow> (of_char a :: nat) + 32 = of_char b"
  proof
    assume "char_of ((of_char a :: nat) + 32) = b"
    then have "(of_char b :: nat) = ((of_char a :: nat) + 32) mod 256" by (auto simp: of_char_of)
    with True show "(of_char a :: nat) + 32 = of_char b" by simp
  next
    assume "(of_char a :: nat) + 32 = of_char b"
    then show "char_of ((of_char a :: nat) + 32) = b" by simp
  qed
  with l ne assms show ?thesis by (simp add: capital_of_def)
next
  case False
  then have l: "lower_char a = a" by (auto simp: lower_char_def Let_def)
  have "\<not> capital_of a b" using False by (auto simp: capital_of_def)
  with l show ?thesis by simp
qed

lemma lower_eq_small:
  assumes "list_all (\<lambda>b. 97 \<le> (of_char b :: nat) \<and> (of_char b :: nat) \<le> 122) pat"
  shows "lower u = pat \<longleftrightarrow> list_all2 (\<lambda>a b. a = b \<or> capital_of a b) u pat"
  using assms
proof (induction pat arbitrary: u)
  case Nil
  then show ?case by (simp add: lower_def)
next
  case (Cons b pat)
  show ?case
  proof (cases u)
    case Nil
    then show ?thesis by (simp add: lower_def)
  next
    case (Cons a u')
    have "lower u' = pat \<longleftrightarrow> list_all2 (\<lambda>a b. a = b \<or> capital_of a b) u' pat"
      using Cons.IH Cons.prems by simp
    moreover have "lower_char a = b \<longleftrightarrow> (a = b \<or> capital_of a b)"
      using Cons.prems by (intro lower_char_small) simp_all
    ultimately show ?thesis using Cons by (simp add: lower_def)
  qed
qed

lemma sublist_lower:
  assumes "list_all (\<lambda>b. 97 \<le> (of_char b :: nat) \<and> (of_char b :: nat) \<le> 122) pat"
  shows "sublist pat (lower s) \<longleftrightarrow> occurs_ignoring_case pat s"
proof
  assume "sublist pat (lower s)"
  then obtain xs ys where "map lower_char s = xs @ pat @ ys" by (auto simp: sublist_def lower_def)
  then obtain ps r where s: "s = ps @ r" and "pat @ ys = map lower_char r"
    unfolding map_eq_append_conv by blast
  then obtain u ss where r: "r = u @ ss" and u: "map lower_char u = pat"
    unfolding append_eq_map_conv by blast
  from u have "list_all2 (\<lambda>a b. a = b \<or> capital_of a b) u pat"
    using lower_eq_small[OF assms, of u] by (simp add: lower_def)
  with s r show "occurs_ignoring_case pat s" by (auto simp: occurs_ignoring_case_def)
next
  assume "occurs_ignoring_case pat s"
  then obtain ps u ss where s: "s = ps @ u @ ss" and "list_all2 (\<lambda>a b. a = b \<or> capital_of a b) u pat"
    by (auto simp: occurs_ignoring_case_def)
  then have "lower u = pat" using lower_eq_small[OF assms, of u] by simp
  with s have "lower s = lower ps @ pat @ lower ss" by (simp add: lower_def)
  then show "sublist pat (lower s)" by (auto simp: sublist_def)
qed

subsection \<open>Device classification\<close>

text \<open>C5: classification is a total function of the platform value alone; a missing
  platform gives unknown; otherwise the patterns are looked for in the platform text without
  regard to case, in the order android/ios, windows/mac, web, and the first rule that matches
  decides; the result is one of the five categories.\<close>

theorem classify_device_spec:
  "classify_device None = ''unknown''
   \<and> classify_device (Some p) =
       (if occurs_ignoring_case ''android'' p \<or> occurs_ignoring_case ''ios'' p then ''mobile''
        else if occurs_ignoring_case ''windows'' p \<or> occurs_ignoring_case ''mac'' p then ''desktop''
        else if occurs_ignoring_case ''web'' p then ''web''
        else ''other'')
   \<and> classify_device q \<in> {''mobile'', ''desktop'', ''web'', ''other'', ''unknown''}"
proof -
  have a: "sublist ''android'' (lower p) = occurs_ignoring_case ''android'' p"
    by (rule sublist_lower) simp
  have i: "sublist ''ios'' (lower p) = occurs_ignoring_case ''ios'' p"
    by (rule sublist_lower) simp
  have w: "sublist ''windows'' (lower p) = occurs_ignoring_case ''windows'' p"
    by (rule sublist_lower) simp
  have m: "sublist ''mac'' (lower p) = occurs_ignoring_case ''mac'' p"
    by (rule sublist_lower) simp
  have b: "sublist ''web'' (lower p) = occurs_ignoring_case ''web'' p"
    by (rule sublist_lower) simp
  have 1: "classify_device None = ''unknown''" by (simp add: classify_device_def)
  have 2: "classify_device (Some p) =
       (if occurs_ignoring_case ''android'' p \<or> occurs_ignoring_case ''ios'' p then ''mobile''
        else if occurs_ignoring_case ''windows'' p \<or> occurs_ignoring_case ''mac'' p then ''desktop''
        else if occurs_ignoring_case ''web'' p then ''web''
        else ''other'')"
    unfolding a[symmetric] i[symmetric] w[symmetric] m[symmetric] b[symmetric]
    by (simp add: classify_device_def Let_def str_in_sublist)
  have 3: "classify_device q \<in> {''mobile'', ''desktop'', ''web'', ''other'', ''unknown''}"
    by (cases q) (simp_all add: classify_device_def Let_def)
  from 1 2 3 show ?thesis by blast
qed

lemma classify_device_examples:
  "classify_device (Some ''iOS 15'') = ''mobile''"
  "classify_device (Some ''Android OS 10'') = ''mobile''"
  "classify_device (Some ''WebPlayer (Windows)'') = ''desktop''"
  "classify_device (Some ''web_player'') = ''web''"
  "classify_device (Some ''Partner tv'') = ''other''"
  by code_simp+

lemma astype_int_length: "astype_int xs = Inr vs \<Longrightarrow> length vs = length xs"
  by (auto simp: astype_int_def split: if_splits)

lemma fill_key_props:
  assumes "fill_key c f = Inr f'" "c \<in> set (columns f)"
  shows "length (rows f') = length (rows f)"
    and "columns f' = columns f"
    and "astype_int (fillna (IntV UNKNOWN_ID) (getcol c f)) = Inr (getcol c f')"
    and "c' \<noteq> c \<Longrightarrow> getcol c' f' = getcol c' f"
proof -
  from assms(1) obtain vs where vs: "astype_int (fillna (IntV UNKNOWN_ID) (getcol c f)) = Inr vs"
    and f': "f' = setitem c vs f"
    by (auto simp: fill_key_def split: sum.splits)
  have len: "length vs = length (rows f)"
    using astype_int_length[OF vs] by (simp add: fillna_def length_getcol)
  show "length (rows f') = length (rows f)" by (simp add: f' length_rows_setitem[OF len])
  show "columns f' = columns f" using assms(2) by (simp add: f' columns_setitem)
  show "astype_int (fillna (IntV UNKNOWN_ID) (getcol c f)) = Inr (getcol c f')"
    by (simp add: vs f' getcol_setitem_same[OF len])
  show "getcol c' f' = getcol c' f" if "c' \<noteq> c"
    using that by (simp add: f' getcol_setitem_other[OF len])
qed

lemma to_flag_props:
  assumes "c \<in> set (columns f)"
  shows "length (rows (to_flag tn c f)) = length (rows f)"
    and "columns (to_flag tn c f) = columns f"
    and "c' \<noteq> c \<Longrightarrow> getcol c' (to_flag tn c f) = getcol c' f"
proof -
  have len: "length (map astype_bool (fillna (IntV 0) (map tn (getcol c f)))) = length (rows f)"
    by (simp add: fillna_def length_getcol)
  show "length (rows (to_flag tn c f)) = length (rows f)"
    unfolding to_flag_def by (rule length_rows_setitem[OF len])
  show "columns (to_flag tn c f) = columns f"
    using assms by (simp add: to_flag_def columns_setitem)
  show "getcol c' (to_flag tn c f) = getcol c' f" if "c' \<noteq> c"
    unfolding to_flag_def by (rule getcol_setitem_other[OF len that])
qed

lemma flag_pass_props:
  assumes "set [''skipped'', ''shuffle'', ''offline'', ''incognito_mode''] \<subseteq> set (columns f)"
  shows "length (rows (flag_pass tn f)) = length (rows f)"
    and "columns (flag_pass tn f) = columns f"
    and "c' \<notin> set [''skipped'', ''shuffle'', ''offline'', ''incognito_mode''] \<Longrightarrow>
         getcol c' (flag_pass tn f) = getcol c' f"
  using assms by (simp_all add: flag_pass_def to_flag_props)

lemma missing_cols_Nil: "missing_cols cs df = [] \<longleftrightarrow> set cs \<subseteq> set (columns df)"
  by (auto simp: missing_cols_def filter_empty_conv)

lemma create_fact_table_cols:
  assumes ok: "create_fact_table tn M = Inr F"
  shows "length (rows F) = length (rows M)"
    and "columns F = fact_columns"
    and "set fact_columns - {''date_id''} \<subseteq> set (columns M)"
    and "''ts'' \<in> set (columns M)"
    and "getcol ''event_id'' F = getcol ''event_id'' M"
    and "getcol ''date_id'' F = map date_id_of (getcol ''ts'' M)"
    and "astype_int (fillna (IntV UNKNOWN_ID) (getcol ''track_id'' M)) = Inr (getcol ''track_id'' F)"
    and "astype_int (fillna (IntV UNKNOWN_ID) (getcol ''episode_id'' M)) = Inr (getcol ''episode_id'' F)"
    and "astype_int (fillna (IntV UNKNOWN_ID) (getcol ''device_id'' M)) = Inr (getcol ''device_id'' F)"
    and "astype_int (fillna (IntV UNKNOWN_ID) (getcol ''location_id'' M)) = Inr (getcol ''location_id'' F)"
proof -
  define temp where "temp = setitem ''date_id'' (map date_id_of (getcol ''ts'' M)) M"
  define f0 where "f0 = select fact_columns temp"
  have lt: "length (map date_id_of (getcol ''ts'' M)) = length (rows M)" by (simp add: length_getcol)
  from ok show ts: "''ts'' \<in> set (columns M)"
    by (auto simp: create_fact_table_def split: if_splits)
  from ok have mc: "missing_cols fact_columns temp = []"
    by (auto simp: create_fact_table_def Let_def temp_def split: if_splits list.splits)
  then have sub: "set fact_columns \<subseteq> set (columns temp)" by (simp add: missing_cols_Nil)
  then show "set fact_columns - {''date_id''} \<subseteq> set (columns M)"
    by (auto simp: temp_def columns_setitem split: if_splits)
  from ok mc obtain f1 f2 f3 f4 where
      f1: "fill_key ''track_id'' f0 = Inr f1" and f2: "fill_key ''episode_id'' f1 = Inr f2"
      and f3: "fill_key ''device_id'' f2 = Inr f3" and f4: "fill_key ''location_id'' f3 = Inr f4"
      and F: "F = flag_pass tn f4"
    by (auto simp: create_fact_table_def Let_def temp_def[symmetric] f0_def[symmetric]
          flag_pass_def split: if_splits sum.splits)
  have c0: "columns f0 = fact_columns" by (simp add: f0_def columns_select)
  note p1 = fill_key_props[OF f1]
  have c1: "columns f1 = fact_columns" using p1(2) by (simp add: c0 fact_columns_def)
  note p2 = fill_key_props[OF f2]
  have c2: "columns f2 = fact_columns" using p2(2) by (simp add: c1 fact_columns_def)
  note p3 = fill_key_props[OF f3]
  have c3: "columns f3 = fact_columns" using p3(2) by (simp add: c2 fact_columns_def)
  note p4 = fill_key_props[OF f4]
  have c4: "columns f4 = fact_columns" using p4(2) by (simp add: c3 fact_columns_def)
  have fl: "set [''skipped'', ''shuffle'', ''offline'', ''incognito_mode''] \<subseteq> set (columns f4)"
    by (simp add: c4 fact_columns_def)
  note pf = flag_pass_props[OF fl, where tn = tn]
  have in0: "''track_id'' \<in> set (columns f0)" "''episode_id'' \<in> set (columns f1)"
    "''device_id'' \<in> set (columns f2)" "''location_id'' \<in> set (columns f3)"
    by (simp_all add: c0 c1 c2 c3 fact_columns_def)
  have g0: "getcol c f0 = getcol c M" if "c \<in> set fact_columns" "c \<noteq> ''date_id''" for c
    using that by (simp add: f0_def getcol_select temp_def getcol_setitem_other[OF lt])
  have gd: "getcol ''date_id'' f0 = map date_id_of (getcol ''ts'' M)"
    by (simp add: f0_def getcol_select temp_def getcol_setitem_same[OF lt] fact_columns_def)
  show "columns F = fact_columns" by (simp add: F pf(2) c4)
  show "length (rows F) = length (rows M)"
    by (simp add: F pf(1) p4(1)[OF in0(4)] p3(1)[OF in0(3)] p2(1)[OF in0(2)] p1(1)[OF in0(1)]
          f0_def length_rows_select temp_def length_rows_setitem[OF lt])
  show "getcol ''event_id'' F = getcol ''event_id'' M"
    by (simp add: F pf(3) p4(4)[OF in0(4)] p3(4)[OF in0(3)] p2(4)[OF in0(2)] p1(4)[OF in0(1)]
          g0 fact_columns_def)
  show "getcol ''date_id'' F = map date_id_of (getcol ''ts'' M)"
    by (simp add: F pf(3) p4(4)[OF in0(4)] p3(4)[OF in0(3)] p2(4)[OF in0(2)] p1(4)[OF in0(1)] gd)
  show "astype_int (fillna (IntV UNKNOWN_ID) (getcol ''track_id'' M)) = Inr (getcol ''track_id'' F)"
    using p1(3)[OF in0(1)]
    by (simp add: F pf(3) p4(4)[OF in0(4)] p3(4)[OF in0(3)] p2(4)[OF in0(2)] g0 fact_columns_def)
  show "astype_int (fillna (IntV UNKNOWN_ID) (getcol ''episode_id'' M)) = Inr (getcol ''episode_id'' F)"
    using p2(3)[OF in0(2)]
    by (simp add: F pf(3) p4(4)[OF in0(4)] p3(4)[OF in0(3)] p1(4)[OF in0(1)] g0 fact_columns_def)
  show "astype_int (fillna (IntV UNKNOWN_ID) (getcol ''device_id'' M)) = Inr (getcol ''device_id'' F)"
    using p3(3)[OF in0(3)]
    by (simp add: F pf(3) p4(4)[OF in0(4)] p2(4)[OF in0(2)] p1(4)[OF in0(1)] g0 fact_columns_def)
  show "astype_int (fillna (IntV UNKNOWN_ID) (getcol ''location_id'' M)) = Inr (getcol ''location_id'' F)"
    using p4(3)[OF in0(4)]
    by (simp add: F pf(3) p3(4)[OF in0(3)] p2(4)[OF in0(2)] p1(4)[OF in0(1)] g0 fact_columns_def)
qed

lemma clean_data_event_id:
  shows "getcol ''event_id'' (clean_data df) = map (\<lambda>i. IntV (int i)) [0..<length (rows (clean_data df))]"
    and "''event_id'' \<in> set (columns (clean_data df))"
proof -
  obtain mid where cd: "clean_data df = setitem ''event_id'' (map IntV (index (reset_index mid))) (reset_index mid)"
    by (simp add: clean_data_def Let_def)
  have len: "length (map IntV (index (reset_index mid))) = length (rows (reset_index mid))"
    by (simp add: index_def)
  show "getcol ''event_id'' (clean_data df) = map (\<lambda>i. IntV (int i)) [0..<length (rows (clean_data df))]"
    unfolding cd getcol_setitem_same[OF len] length_rows_setitem[OF len]
    by (simp add: index_reset_index length_rows_reset_index o_def)
  show "''event_id'' \<in> set (columns (clean_data df))"
    by (simp add: cd columns_setitem)
qed

lemma astype_int_IntV:
  "astype_int xs = Inr vs \<Longrightarrow> i < length xs \<Longrightarrow> xs ! i = IntV m \<Longrightarrow> vs ! i = IntV m"
  by (auto simp: astype_int_def split: if_splits)

lemma create_dim_needs:
  "create_dim_date df = Inr a \<Longrightarrow> ''ts'' \<in> set (columns df)"
  "create_dim_device df = Inr b \<Longrightarrow> ''platform'' \<in> set (columns df)"
  "create_dim_track df = Inr c \<Longrightarrow> ''spotify_track_uri'' \<in> set (columns df)"
  "create_dim_episode df = Inr d \<Longrightarrow> ''spotify_episode_uri'' \<in> set (columns df)"
  "create_dim_location df = Inr e \<Longrightarrow> ''ip_addr'' \<in> set (columns df)"
proof -
  show "create_dim_date df = Inr a \<Longrightarrow> ''ts'' \<in> set (columns df)"
    by (auto simp: create_dim_date_def split: if_splits)
  show "create_dim_device df = Inr b \<Longrightarrow> ''platform'' \<in> set (columns df)"
    by (auto simp: create_dim_device_def split: if_splits)
  show "create_dim_track df = Inr c \<Longrightarrow> ''spotify_track_uri'' \<in> set (columns df)"
    by (auto simp: create_dim_track_def missing_cols_def split: list.splits if_splits)
  show "create_dim_episode df = Inr d \<Longrightarrow> ''spotify_episode_uri'' \<in> set (columns df)"
    by (auto simp: create_dim_episode_def missing_cols_def split: list.splits if_splits)
  show "create_dim_location df = Inr e \<Longrightarrow> ''ip_addr'' \<in> set (columns df)"
    by (auto simp: create_dim_location_def missing_cols_def split: list.splits if_splits)
qed

lemma keyed_dimension_ids:
  assumes "keyed_dimension k idc kv D" "v \<in> set (getcol idc D)"
  shows "\<exists>m. v = IntV m"
  using assms by (auto simp: keyed_dimension_def)

lemma filled_key:
  assumes a: "astype_int (fillna (IntV UNKNOWN_ID) xs) = Inr vs" and i: "i < length xs"
    and v: "xs ! i = Null \<or> (\<exists>m. xs ! i = IntV m)"
  shows "vs ! i = (if xs ! i = Null then IntV UNKNOWN_ID else xs ! i)"
proof -
  have l: "i < length (fillna (IntV UNKNOWN_ID) xs)" using i by (simp add: fillna_def)
  have "\<exists>m. fillna (IntV UNKNOWN_ID) xs ! i = IntV m \<and> IntV m = (if xs ! i = Null then IntV UNKNOWN_ID else xs ! i)"
    using v i by (auto simp: fillna_def)
  then obtain m where m: "fillna (IntV UNKNOWN_ID) xs ! i = IntV m"
      "IntV m = (if xs ! i = Null then IntV UNKNOWN_ID else xs ! i)" by blast
  from astype_int_IntV[OF a l m(1)] m(2) show ?thesis by simp
qed

lemma resolved_key_link:
  assumes res: "resolved D k idc \<rho> l"
    and kd: "keyed_dimension k' idc kv D"
    and a: "astype_int (fillna (IntV UNKNOWN_ID) xs) = Inr vs" and i: "i < length xs"
    and x: "xs ! i = \<rho> idc"
  shows "key_link D k idc (vs ! i) l"
proof -
  from res consider
      (none) "\<rho> idc = Null" "\<forall>d \<in> set (map snd (rows D)). key_norm (d k) \<noteq> key_norm (l k)"
    | (some) d where "d \<in> set (map snd (rows D))" "key_norm (d k) = key_norm (l k)" "\<rho> idc = d idc"
    unfolding resolved_def by blast
  then show ?thesis
  proof cases
    case none
    have "vs ! i = IntV UNKNOWN_ID" using filled_key[OF a i] none(1) x by simp
    with none(2) show ?thesis by (simp add: key_link_def)
  next
    case some
    have "d idc \<in> set (getcol idc D)" using some(1) by (auto simp: getcol_def)
    from keyed_dimension_ids[OF kd this] obtain m where m: "d idc = IntV m" by blast
    have "vs ! i = \<rho> idc" using filled_key[OF a i] some(3) m x by simp
    with some show ?thesis unfolding key_link_def by auto
  qed
qed

lemma build_tables_parts:
  assumes "build_tables tn df = Inr T"
  shows "create_dim_date df = Inr (tbl_dim_date T)"
    and "create_dim_device df = Inr (tbl_dim_device T)"
    and "create_dim_track df = Inr (tbl_dim_track T)"
    and "create_dim_episode df = Inr (tbl_dim_episode T)"
    and "create_dim_location df = Inr (tbl_dim_location T)"
    and "create_fact_table tn (merge_keys df (tbl_dim_device T) (tbl_dim_track T)
            (tbl_dim_episode T) (tbl_dim_location T)) = Inr (tbl_fact_table T)"
  using assms by (auto simp: build_tables_def split: sum.splits)

lemma fact_rows:
  assumes bt: "build_tables tn df = Inr T" and i: "i < length (rows (tbl_fact_table T))"
  shows "\<exists>l \<in> set (map snd (rows df)).
           (''event_id'' \<in> set (columns df) \<longrightarrow> getcol ''event_id'' (tbl_fact_table T) ! i = l ''event_id'')
           \<and> getcol ''date_id'' (tbl_fact_table T) ! i = date_id_of (l ''ts'')
           \<and> key_link (tbl_dim_device T) ''platform'' ''device_id''
                 (getcol ''device_id'' (tbl_fact_table T) ! i) l
           \<and> key_link (tbl_dim_track T) ''spotify_track_uri'' ''track_id''
                 (getcol ''track_id'' (tbl_fact_table T) ! i) l
           \<and> key_link (tbl_dim_episode T) ''spotify_episode_uri'' ''episode_id''
                 (getcol ''episode_id'' (tbl_fact_table T) ! i) l
           \<and> key_link (tbl_dim_location T) ''ip_addr'' ''location_id''
                 (getcol ''location_id'' (tbl_fact_table T) ! i) l"
proof -
  define F where "F = tbl_fact_table T"
  define M where "M = merge_keys df (tbl_dim_device T) (tbl_dim_track T) (tbl_dim_episode T) (tbl_dim_location T)"
  note parts = build_tables_parts[OF bt]
  have cf: "create_fact_table tn M = Inr F" using parts(6) by (simp add: M_def F_def)
  note fc = create_fact_table_cols[OF cf]
  have iM: "i < length (rows M)" using i fc(1) by (simp add: F_def)
  define \<rho> where "\<rho> = map snd (rows M) ! i"
  have rho_in: "\<rho> \<in> set (map snd (rows M))" using iM by (simp add: \<rho>_def)
  have gM: "getcol c M ! i = \<rho> c" for c using iM by (simp add: getcol_def \<rho>_def)
  have ids: "''device_id'' \<in> set (columns M)" "''track_id'' \<in> set (columns M)"
      "''episode_id'' \<in> set (columns M)" "''location_id'' \<in> set (columns M)"
    using fc(3) by (auto simp: fact_columns_def)
  have keys: "''platform'' \<in> set (columns df)" "''spotify_track_uri'' \<in> set (columns df)"
      "''spotify_episode_uri'' \<in> set (columns df)" "''ip_addr'' \<in> set (columns df)"
    using create_dim_needs(2)[OF parts(2)] create_dim_needs(3)[OF parts(3)]
      create_dim_needs(4)[OF parts(4)] create_dim_needs(5)[OF parts(5)] by simp_all
  have ts: "''ts'' \<in> set (columns df)" using create_dim_needs(1)[OF parts(1)] .
  from merge_keys_rows(1)[OF ids keys M_def rho_in] obtain l where l: "l \<in> set (map snd (rows df))"
      and agree: "\<forall>c \<in> set (columns df). \<rho> c = l c"
      and r1: "resolved (tbl_dim_device T) ''platform'' ''device_id'' \<rho> l"
      and r2: "resolved (tbl_dim_track T) ''spotify_track_uri'' ''track_id'' \<rho> l"
      and r3: "resolved (tbl_dim_episode T) ''spotify_episode_uri'' ''episode_id'' \<rho> l"
      and r4: "resolved (tbl_dim_location T) ''ip_addr'' ''location_id'' \<rho> l"
    by blast
  have lenM: "i < length (getcol c M)" for c using iM by (simp add: length_getcol)
  have e: "''event_id'' \<in> set (columns df) \<longrightarrow> getcol ''event_id'' F ! i = l ''event_id''"
    using agree by (auto simp: fc(5) gM)
  have d: "getcol ''date_id'' F ! i = date_id_of (l ''ts'')"
    using agree ts lenM[of "''ts''"] by (simp add: fc(6) gM)
  have k1: "key_link (tbl_dim_device T) ''platform'' ''device_id'' (getcol ''device_id'' F ! i) l"
    by (rule resolved_key_link[OF r1 dim_device_shape(1)[OF parts(2)] fc(9) lenM gM])
  have k2: "key_link (tbl_dim_track T) ''spotify_track_uri'' ''track_id'' (getcol ''track_id'' F ! i) l"
    by (rule resolved_key_link[OF r2 dim_track_shape(1)[OF parts(3)] fc(7) lenM gM])
  have k3: "key_link (tbl_dim_episode T) ''spotify_episode_uri'' ''episode_id'' (getcol ''episode_id'' F ! i) l"
    by (rule resolved_key_link[OF r3 dim_episode_shape(1)[OF parts(4)] fc(8) lenM gM])
  have k4: "key_link (tbl_dim_location T) ''ip_addr'' ''location_id'' (getcol ''location_id'' F ! i) l"
    by (rule resolved_key_link[OF r4 dim_location_shape(1)[OF parts(5)] fc(10) lenM gM])
  from l e d k1 k2 k3 k4 show ?thesis unfolding F_def by blast
qed

lemma astype_int_keys:
  assumes "list_all key_cell xs"
  shows "\<exists>vs. astype_int (fillna (IntV UNKNOWN_ID) xs) = Inr vs"
proof -
  have "int64 UNKNOWN_ID" by (simp add: int64_def UNKNOWN_ID_def)
  then have "list_all (\<lambda>v. case v of IntV n \<Rightarrow> int64 n | BoolV _ \<Rightarrow> True
                           | NumV x \<Rightarrow> int64 (if x < 0 then \<lceil>x\<rceil> else \<lfloor>x\<rfloor>) | _ \<Rightarrow> False)
          (fillna (IntV UNKNOWN_ID) xs)"
    using assms by (auto simp: list_all_iff fillna_def key_cell_def split: cell.splits)
  then show ?thesis by (simp add: astype_int_def)
qed

lemma fill_key_succeeds:
  assumes "list_all key_cell (getcol c f)"
  shows "\<exists>f'. fill_key c f = Inr f'"
  using astype_int_keys[OF assms] by (auto simp: fill_key_def)

lemma create_fact_table_succeeds:
  assumes ts: "''ts'' \<in> set (columns M)" "datetimelike (getcol ''ts'' M)"
    and cols: "set fact_columns - {''date_id''} \<subseteq> set (columns M)"
    and k1: "list_all key_cell (getcol ''track_id'' M)"
    and k2: "list_all key_cell (getcol ''episode_id'' M)"
    and k3: "list_all key_cell (getcol ''device_id'' M)"
    and k4: "list_all key_cell (getcol ''location_id'' M)"
  shows "\<exists>F. create_fact_table tn M = Inr F"
proof -
  define temp where "temp = setitem ''date_id'' (map date_id_of (getcol ''ts'' M)) M"
  define f0 where "f0 = select fact_columns temp"
  have lt: "length (map date_id_of (getcol ''ts'' M)) = length (rows M)" by (simp add: length_getcol)
  have mc: "missing_cols fact_columns temp = []"
    using cols by (auto simp: missing_cols_Nil temp_def columns_setitem)
  have g0: "getcol c f0 = getcol c M" if "c \<in> set fact_columns" "c \<noteq> ''date_id''" for c
    using that by (simp add: f0_def getcol_select temp_def getcol_setitem_other[OF lt])
  have c0: "columns f0 = fact_columns" by (simp add: f0_def columns_select)
  have "list_all key_cell (getcol ''track_id'' f0)" using k1 by (simp add: g0 fact_columns_def)
  from fill_key_succeeds[OF this] obtain f1 where f1: "fill_key ''track_id'' f0 = Inr f1" by blast
  have in0: "''track_id'' \<in> set (columns f0)" by (simp add: c0 fact_columns_def)
  note p1 = fill_key_props[OF f1 in0]
  have "list_all key_cell (getcol ''episode_id'' f1)" using k2 by (simp add: p1(4) g0 fact_columns_def)
  from fill_key_succeeds[OF this] obtain f2 where f2: "fill_key ''episode_id'' f1 = Inr f2" by blast
  have in1: "''episode_id'' \<in> set (columns f1)" by (simp add: p1(2) c0 fact_columns_def)
  note p2 = fill_key_props[OF f2 in1]
  have "list_all key_cell (getcol ''device_id'' f2)" using k3 by (simp add: p2(4) p1(4) g0 fact_columns_def)
  from fill_key_succeeds[OF this] obtain f3 where f3: "fill_key ''device_id'' f2 = Inr f3" by blast
  have in2: "''device_id'' \<in> set (columns f2)" by (simp add: p2(2) p1(2) c0 fact_columns_def)
  note p3 = fill_key_props[OF f3 in2]
  have "list_all key_cell (getcol ''location_id'' f3)" using k4 by (simp add: p3(4) p2(4) p1(4) g0 fact_columns_def)
  from fill_key_succeeds[OF this] obtain f4 where f4: "fill_key ''location_id'' f3 = Inr f4" by blast
  show ?thesis
    using ts mc f1 f2 f3 f4
    by (simp add: create_fact_table_def Let_def temp_def[symmetric] f0_def[symmetric])
qed

lemma merge_keys_columns:
  assumes "''device_id'' \<notin> set (columns df)" "''track_id'' \<notin> set (columns df)"
    "''episode_id'' \<notin> set (columns df)" "''location_id'' \<notin> set (columns df)"
  shows "columns (merge_keys df Dv Dt De Dl)
         = columns df @ [''device_id'', ''track_id'', ''episode_id'', ''location_id'']"
proof -
  define d1 where "d1 = merge_left ''platform'' df (select [''platform'', ''device_id''] Dv)"
  define d2 where "d2 = merge_left ''spotify_track_uri'' d1 (select [''spotify_track_uri'', ''track_id''] Dt)"
  define d3 where "d3 = merge_left ''spotify_episode_uri'' d2 (select [''spotify_episode_uri'', ''episode_id''] De)"
  have c1: "columns d1 = columns df @ [''device_id'']"
    using assms(1) by (simp add: d1_def columns_merge_left merge_names_select_fresh)
  have c2: "columns d2 = columns d1 @ [''track_id'']"
    using assms(2) by (simp add: d2_def columns_merge_left merge_names_select_fresh c1)
  have c3: "columns d3 = columns d2 @ [''episode_id'']"
    using assms(3) by (simp add: d3_def columns_merge_left merge_names_select_fresh c2 c1)
  have c4: "columns (merge_left ''ip_addr'' d3 (select [''ip_addr'', ''location_id''] Dl))
            = columns d3 @ [''location_id'']"
    using assms(4) by (simp add: columns_merge_left merge_names_select_fresh c3 c2 c1)
  show ?thesis
    by (simp add: merge_keys_def Let_def d1_def[symmetric] d2_def[symmetric] d3_def[symmetric]
          c4 c3 c2 c1)
qed

lemma distinct_keys_length:
  assumes "distinct (map key_norm xs)" "set xs \<subseteq> set ys"
  shows "length xs \<le> length ys"
proof -
  have "card (set (map key_norm xs)) = length (map key_norm xs)"
    using assms(1) by (rule distinct_card)
  then have "length xs = card (key_norm ` set xs)" by simp
  also have "\<dots> \<le> card (key_norm ` set ys)"
    using assms(2) by (intro card_mono) auto
  also have "\<dots> \<le> card (set ys)" by (rule card_image_le) simp
  also have "\<dots> \<le> length ys" by (rule card_length)
  finally show ?thesis .
qed

lemma keyed_dimension_key_cells:
  assumes kd: "keyed_dimension k idc kv D" and sub: "set (tl (getcol k D)) \<subseteq> set ys"
    and n: "length ys \<le> 2 ^ 63" and v: "v \<in> set (getcol idc D)"
  shows "key_cell v"
proof -
  have ids: "getcol idc D = IntV UNKNOWN_ID # map (\<lambda>i. IntV (int i)) [0..<length (rows D) - 1]"
    and dist: "distinct (map key_norm (tl (getcol k D)))"
    using kd by (simp_all add: keyed_dimension_def)
  have "length (tl (getcol k D)) \<le> length ys" by (rule distinct_keys_length[OF dist sub])
  then have len: "length (rows D) - 1 \<le> 2 ^ 63" using n by (simp add: length_getcol)
  from v ids consider "v = IntV UNKNOWN_ID" | i where "i < length (rows D) - 1" "v = IntV (int i)"
    by auto
  then show ?thesis
  proof cases
    case 1
    then show ?thesis by (simp add: key_cell_def int64_def UNKNOWN_ID_def)
  next
    case 2
    then have "int i < 2 ^ 63" using len
      by (metis (no_types, opaque_lifting) less_le_trans of_nat_less_iff of_nat_numeral of_nat_power)
    with 2 show ?thesis by (simp add: key_cell_def int64_def)
  qed
qed

lemma resolved_key_cell:
  assumes "resolved D k idc \<rho> l" "\<And>v. v \<in> set (getcol idc D) \<Longrightarrow> key_cell v"
  shows "key_cell (\<rho> idc)"
proof -
  from assms(1) consider "\<rho> idc = Null" | d where "d \<in> set (map snd (rows D))" "\<rho> idc = d idc"
    unfolding resolved_def by blast
  then show ?thesis
  proof cases
    case 1 then show ?thesis by (simp add: key_cell_def)
  next
    case 2
    then have "d idc \<in> set (getcol idc D)" by (auto simp: getcol_def)
    with assms(2) 2 show ?thesis by simp
  qed
qed

lemma export_schema_cols:
  assumes "export_schema df" "c \<in> set export_columns"
  shows "c \<in> set (columns df)"
  using assms by (simp add: export_schema_def list_all_iff)

lemma dims_succeed:
  assumes "export_schema df"
  shows "\<exists>d. create_dim_date df = Inr d" "\<exists>d. create_dim_device df = Inr d"
    "\<exists>d. create_dim_track df = Inr d" "\<exists>d. create_dim_episode df = Inr d"
    "\<exists>d. create_dim_location df = Inr d"
proof -
  note ec = export_schema_cols[OF assms]
  have m: "''ts'' \<in> set (columns df)" "''platform'' \<in> set (columns df)"
    "''spotify_track_uri'' \<in> set (columns df)" "''master_metadata_track_name'' \<in> set (columns df)"
    "''master_metadata_album_artist_name'' \<in> set (columns df)"
    "''master_metadata_album_album_name'' \<in> set (columns df)"
    "''spotify_episode_uri'' \<in> set (columns df)" "''episode_name'' \<in> set (columns df)"
    "''episode_show_name'' \<in> set (columns df)" "''ip_addr'' \<in> set (columns df)"
    "''conn_country'' \<in> set (columns df)"
    by (rule ec, simp add: export_columns_def)+
  have dl: "datetimelike (getcol ''ts'' df)" using assms by (simp add: export_schema_def)
  show "\<exists>d. create_dim_date df = Inr d" unfolding create_dim_date_def using m(1) dl by simp
  show "\<exists>d. create_dim_device df = Inr d" unfolding create_dim_device_def using m(2) by simp
  have t: "missing_cols [''spotify_track_uri'', ''master_metadata_track_name'',
             ''master_metadata_album_artist_name'', ''master_metadata_album_album_name''] df = []"
    unfolding missing_cols_Nil using m by simp
  show "\<exists>d. create_dim_track df = Inr d" unfolding create_dim_track_def t by simp
  have e: "missing_cols [''spotify_episode_uri'', ''episode_name'', ''episode_show_name''] df = []"
    unfolding missing_cols_Nil using m by simp
  show "\<exists>d. create_dim_episode df = Inr d" unfolding create_dim_episode_def e by simp
  have l: "missing_cols [''ip_addr'', ''conn_country''] df = []"
    unfolding missing_cols_Nil using m by simp
  show "\<exists>d. create_dim_location df = Inr d" unfolding create_dim_location_def l by simp
qed

lemma merged_cells:
  assumes es: "export_schema df"
    and dv: "create_dim_device df = Inr dv" and dtr: "create_dim_track df = Inr dtr"
    and de: "create_dim_episode df = Inr de" and dlo: "create_dim_location df = Inr dlo"
    and rho: "\<rho> \<in> set (map snd (rows (merge_keys df dv dtr de dlo)))"
  shows "\<rho> ''ts'' \<in> set (getcol ''ts'' df)" "key_cell (\<rho> ''device_id'')"
    "key_cell (\<rho> ''track_id'')" "key_cell (\<rho> ''episode_id'')" "key_cell (\<rho> ''location_id'')"
proof -
  note ec = export_schema_cols[OF es]
  have fresh: "''device_id'' \<notin> set (columns df)" "''track_id'' \<notin> set (columns df)"
      "''episode_id'' \<notin> set (columns df)" "''location_id'' \<notin> set (columns df)"
    and n: "length (rows df) < 2 ^ 63"
    using es by (simp_all add: export_schema_def)
  define M where "M = merge_keys df dv dtr de dlo"
  have cM: "columns M = columns df @ [''device_id'', ''track_id'', ''episode_id'', ''location_id'']"
    unfolding M_def by (rule merge_keys_columns[OF fresh])
  have ids: "''device_id'' \<in> set (columns M)" "''track_id'' \<in> set (columns M)"
      "''episode_id'' \<in> set (columns M)" "''location_id'' \<in> set (columns M)"
    by (simp_all add: cM)
  have k1: "''platform'' \<in> set (columns df)" by (rule ec) (simp add: export_columns_def)
  have k2: "''spotify_track_uri'' \<in> set (columns df)" by (rule ec) (simp add: export_columns_def)
  have k3: "''spotify_episode_uri'' \<in> set (columns df)" by (rule ec) (simp add: export_columns_def)
  have k4: "''ip_addr'' \<in> set (columns df)" by (rule ec) (simp add: export_columns_def)
  have tsdf: "''ts'' \<in> set (columns df)" by (rule ec) (simp add: export_columns_def)
  have le: "length (getcol c df) \<le> 2 ^ 63" for c using n by (simp add: length_getcol)
  have sub2: "A \<subseteq> B - {Null} \<Longrightarrow> A \<subseteq> B" for A B :: "cell set" by blast
  have kc1: "key_cell v" if "v \<in> set (getcol ''device_id'' dv)" for v
    by (rule keyed_dimension_key_cells[OF dim_device_shape(1)[OF dv] dim_device_shape(3)[OF dv] le that])
  have kc2: "key_cell v" if "v \<in> set (getcol ''track_id'' dtr)" for v
    by (rule keyed_dimension_key_cells[OF dim_track_shape(1)[OF dtr] sub2[OF dim_track_shape(3)[OF dtr]] le that])
  have kc3: "key_cell v" if "v \<in> set (getcol ''episode_id'' de)" for v
    by (rule keyed_dimension_key_cells[OF dim_episode_shape(1)[OF de] sub2[OF dim_episode_shape(3)[OF de]] le that])
  have kc4: "key_cell v" if "v \<in> set (getcol ''location_id'' dlo)" for v
    by (rule keyed_dimension_key_cells[OF dim_location_shape(1)[OF dlo] dim_location_shape(3)[OF dlo] le that])
  from merge_keys_rows(1)[OF ids k1 k2 k3 k4 M_def rho[folded M_def]] obtain l where l: "l \<in> set (map snd (rows df))"
      and agree: "\<forall>c \<in> set (columns df). \<rho> c = l c"
      and r1: "resolved dv ''platform'' ''device_id'' \<rho> l"
      and r2: "resolved dtr ''spotify_track_uri'' ''track_id'' \<rho> l"
      and r3: "resolved de ''spotify_episode_uri'' ''episode_id'' \<rho> l"
      and r4: "resolved dlo ''ip_addr'' ''location_id'' \<rho> l"
    by blast
  have "\<rho> ''ts'' = l ''ts''" using agree tsdf by simp
  moreover have "l ''ts'' \<in> set (getcol ''ts'' df)" using l by (auto simp: getcol_def)
  ultimately show "\<rho> ''ts'' \<in> set (getcol ''ts'' df)" by simp
  show "key_cell (\<rho> ''device_id'')" by (rule resolved_key_cell[OF r1 kc1])
  show "key_cell (\<rho> ''track_id'')" by (rule resolved_key_cell[OF r2 kc2])
  show "key_cell (\<rho> ''episode_id'')" by (rule resolved_key_cell[OF r3 kc3])
  show "key_cell (\<rho> ''location_id'')" by (rule resolved_key_cell[OF r4 kc4])
qed

lemma getcol_set_cells: "set (getcol c M) = (\<lambda>\<rho>. \<rho> c) ` set (map snd (rows M))"
  by (auto simp: getcol_def)

lemma list_all_getcol:
  assumes "\<And>\<rho>. \<rho> \<in> set (map snd (rows M)) \<Longrightarrow> P (\<rho> c)"
  shows "list_all P (getcol c M)"
  unfolding list_all_iff getcol_set_cells using assms by blast

lemma fact_cols_export:
  assumes es: "export_schema df"
    and cM: "columns M = columns df @ [''device_id'', ''track_id'', ''episode_id'', ''location_id'']"
  shows "set fact_columns - {''date_id''} \<subseteq> set (columns M)" "''ts'' \<in> set (columns M)"
proof -
  note ec = export_schema_cols[OF es]
  have a: "''event_id'' \<in> set (columns df)" by (rule ec) (simp add: export_columns_def)
  have b: "''ms_played'' \<in> set (columns df)" by (rule ec) (simp add: export_columns_def)
  have c: "''skipped'' \<in> set (columns df)" by (rule ec) (simp add: export_columns_def)
  have d: "''shuffle'' \<in> set (columns df)" by (rule ec) (simp add: export_columns_def)
  have e: "''offline'' \<in> set (columns df)" by (rule ec) (simp add: export_columns_def)
  have f: "''incognito_mode'' \<in> set (columns df)" by (rule ec) (simp add: export_columns_def)
  have t: "''ts'' \<in> set (columns df)" by (rule ec) (simp add: export_columns_def)
  have "x \<in> set (columns M)" if "x \<in> set fact_columns" "x \<noteq> ''date_id''" for x
  proof -
    from that(1) have "x = ''event_id'' \<or> x = ''date_id'' \<or> x = ''track_id'' \<or> x = ''episode_id''
        \<or> x = ''device_id'' \<or> x = ''location_id'' \<or> x = ''ms_played'' \<or> x = ''skipped''
        \<or> x = ''shuffle'' \<or> x = ''offline'' \<or> x = ''incognito_mode''"
      by (simp add: fact_columns_def)
    with that(2) a b c d e f show ?thesis unfolding cM by (elim disjE) simp_all
  qed
  then show "set fact_columns - {''date_id''} \<subseteq> set (columns M)" by blast
  show "''ts'' \<in> set (columns M)" using t by (simp add: cM)
qed

lemma build_tables_succeeds:
  assumes es: "export_schema df"
  shows "\<exists>T. build_tables tn df = Inr T"
proof -
  have fresh: "''device_id'' \<notin> set (columns df)" "''track_id'' \<notin> set (columns df)"
      "''episode_id'' \<notin> set (columns df)" "''location_id'' \<notin> set (columns df)"
    and dl: "datetimelike (getcol ''ts'' df)"
    using es by (simp_all add: export_schema_def)
  from dims_succeed[OF es] obtain dd dv dtr de dlo where
      dd: "create_dim_date df = Inr dd" and dv: "create_dim_device df = Inr dv"
      and dtr: "create_dim_track df = Inr dtr" and de: "create_dim_episode df = Inr de"
      and dlo: "create_dim_location df = Inr dlo"
    by blast
  define M where "M = merge_keys df dv dtr de dlo"
  have cM: "columns M = columns df @ [''device_id'', ''track_id'', ''episode_id'', ''location_id'']"
    unfolding M_def by (rule merge_keys_columns[OF fresh])
  note mc = merged_cells[OF es dv dtr de dlo, folded M_def]
  have k1: "list_all key_cell (getcol ''track_id'' M)" by (rule list_all_getcol) (rule mc(3))
  have k2: "list_all key_cell (getcol ''episode_id'' M)" by (rule list_all_getcol) (rule mc(4))
  have k3: "list_all key_cell (getcol ''device_id'' M)" by (rule list_all_getcol) (rule mc(2))
  have k4: "list_all key_cell (getcol ''location_id'' M)" by (rule list_all_getcol) (rule mc(5))
  have "list_all (\<lambda>v. v \<in> set (getcol ''ts'' df)) (getcol ''ts'' M)"
    by (rule list_all_getcol) (rule mc(1))
  then have dlM: "datetimelike (getcol ''ts'' M)"
    using dl unfolding datetimelike_def list_all_iff by blast
  note fc = fact_cols_export[OF es cM]
  from create_fact_table_succeeds[OF fc(2) dlM fc(1) k1 k2 k3 k4, where tn = tn] obtain F
    where F: "create_fact_table tn M = Inr F" by blast
  show ?thesis
    unfolding build_tables_def dd dv dtr de dlo using F by (simp add: M_def)
qed

lemma key_link_member:
  assumes "key_link D k idc v l" "keyed_dimension k' idc kv D"
  shows "v \<in> insert (IntV UNKNOWN_ID) (set (getcol idc D))" "v \<noteq> Null"
proof -
  from assms(1) consider "v = IntV UNKNOWN_ID" | d where "d \<in> set (map snd (rows D))" "v = d idc"
    unfolding key_link_def by blast
  then have "v \<in> insert (IntV UNKNOWN_ID) (set (getcol idc D)) \<and> v \<noteq> Null"
  proof cases
    case 1 then show ?thesis by simp
  next
    case 2
    then have m: "v \<in> set (getcol idc D)" by (auto simp: getcol_def)
    from keyed_dimension_ids[OF assms(2) m] m show ?thesis by auto
  qed
  then show "v \<in> insert (IntV UNKNOWN_ID) (set (getcol idc D))" "v \<noteq> Null" by simp_all
qed

lemma key_link_null:
  assumes "key_link D k idc v l" "l k = Null" "Null \<notin> set (getcol k D)"
  shows "v = IntV UNKNOWN_ID"
proof (rule ccontr)
  assume "v \<noteq> IntV UNKNOWN_ID"
  with assms(1) obtain d where d: "d \<in> set (map snd (rows D))" "key_norm (d k) = key_norm (l k)"
    unfolding key_link_def by blast
  then have "d k = Null" using assms(2) by (simp add: key_norm_Null)
  moreover have "d k \<in> set (getcol k D)" using d(1) by (auto simp: getcol_def)
  ultimately show False using assms(3) by simp
qed

lemma keyed_no_null:
  assumes kd: "keyed_dimension k idc (StrV s) D" and tl: "Null \<notin> set (tl (getcol k D))"
  shows "Null \<notin> set (getcol k D)"
proof -
  have "length (getcol idc D) = length (getcol k D)" by (simp add: length_getcol)
  moreover have "getcol idc D \<noteq> []" using kd by (auto simp: keyed_dimension_def)
  ultimately have ne: "getcol k D \<noteq> []" by auto
  then have "getcol k D = hd (getcol k D) # tl (getcol k D)" by simp
  moreover have "hd (getcol k D) = StrV s" using kd by (simp add: keyed_dimension_def)
  ultimately have "set (getcol k D) = insert (StrV s) (set (tl (getcol k D)))"
    by (metis list.simps(15))
  with tl show ?thesis by simp
qed

lemma clean_data_rows_by_id:
  assumes "e \<in> set (map snd (rows (clean_data raw)))" "l \<in> set (map snd (rows (clean_data raw)))"
    and "e ''event_id'' = l ''event_id''"
  shows "e = l"
proof -
  define cs where "cs = map snd (rows (clean_data raw))"
  have ids: "map (\<lambda>r. r ''event_id'') cs = map (\<lambda>i. IntV (int i)) [0..<length cs]"
    using clean_data_event_id(1)[of raw] by (simp add: cs_def getcol_alt)
  from assms(1,2) obtain a b where a: "a < length cs" "e = cs ! a" and b: "b < length cs" "l = cs ! b"
    unfolding cs_def[symmetric] in_set_conv_nth by blast
  have "(cs ! a) ''event_id'' = IntV (int a)"
    using arg_cong[OF ids, of "\<lambda>xs. xs ! a"] a(1) by simp
  moreover have "(cs ! b) ''event_id'' = IntV (int b)"
    using arg_cong[OF ids, of "\<lambda>xs. xs ! b"] b(1) by simp
  ultimately have "a = b" using assms(3) a(2) b(2) by simp
  then show ?thesis using a b by simp
qed

text \<open>C4: every foreign key of a fact row is the unknown id or an id of its dimension and is
  never missing; an event without a track (episode) URI gets track (episode) id -1; the
  date id of a fact row is one of the date dimension's.\<close>

theorem fact_keys_resolve:
  assumes bt: "build_tables to_numeric (clean_data raw) = Inr T"
    and i: "i < length (rows (tbl_fact_table T))"
  shows "getcol ''track_id'' (tbl_fact_table T) ! i
            \<in> insert (IntV UNKNOWN_ID) (set (getcol ''track_id'' (tbl_dim_track T)))
       \<and> getcol ''episode_id'' (tbl_fact_table T) ! i
            \<in> insert (IntV UNKNOWN_ID) (set (getcol ''episode_id'' (tbl_dim_episode T)))
       \<and> getcol ''device_id'' (tbl_fact_table T) ! i
            \<in> insert (IntV UNKNOWN_ID) (set (getcol ''device_id'' (tbl_dim_device T)))
       \<and> getcol ''location_id'' (tbl_fact_table T) ! i
            \<in> insert (IntV UNKNOWN_ID) (set (getcol ''location_id'' (tbl_dim_location T)))
       \<and> getcol ''track_id'' (tbl_fact_table T) ! i \<noteq> Null
       \<and> getcol ''episode_id'' (tbl_fact_table T) ! i \<noteq> Null
       \<and> getcol ''device_id'' (tbl_fact_table T) ! i \<noteq> Null
       \<and> getcol ''location_id'' (tbl_fact_table T) ! i \<noteq> Null
       \<and> getcol ''date_id'' (tbl_fact_table T) ! i \<in> set (getcol ''date_id'' (tbl_dim_date T))
       \<and> (\<forall>e \<in> set (map snd (rows (clean_data raw))).
             e ''event_id'' = getcol ''event_id'' (tbl_fact_table T) ! i \<longrightarrow>
               (e ''spotify_track_uri'' = Null \<longrightarrow>
                  getcol ''track_id'' (tbl_fact_table T) ! i = IntV UNKNOWN_ID)
             \<and> (e ''spotify_episode_uri'' = Null \<longrightarrow>
                  getcol ''episode_id'' (tbl_fact_table T) ! i = IntV UNKNOWN_ID))"
proof -
  define df where "df = clean_data raw"
  define F where "F = tbl_fact_table T"
  note bt' = bt[folded df_def]
  note parts = build_tables_parts[OF bt']
  have ev: "''event_id'' \<in> set (columns df)" unfolding df_def by (rule clean_data_event_id(2))
  from fact_rows[OF bt' i] ev obtain l where l: "l \<in> set (map snd (rows df))"
      and e: "getcol ''event_id'' F ! i = l ''event_id''"
      and d: "getcol ''date_id'' F ! i = date_id_of (l ''ts'')"
      and k1: "key_link (tbl_dim_device T) ''platform'' ''device_id'' (getcol ''device_id'' F ! i) l"
      and k2: "key_link (tbl_dim_track T) ''spotify_track_uri'' ''track_id'' (getcol ''track_id'' F ! i) l"
      and k3: "key_link (tbl_dim_episode T) ''spotify_episode_uri'' ''episode_id'' (getcol ''episode_id'' F ! i) l"
      and k4: "key_link (tbl_dim_location T) ''ip_addr'' ''location_id'' (getcol ''location_id'' F ! i) l"
    unfolding F_def by blast
  note m1 = key_link_member[OF k1 dim_device_shape(1)[OF parts(2)]]
  note m2 = key_link_member[OF k2 dim_track_shape(1)[OF parts(3)]]
  note m3 = key_link_member[OF k3 dim_episode_shape(1)[OF parts(4)]]
  note m4 = key_link_member[OF k4 dim_location_shape(1)[OF parts(5)]]
  have "l ''ts'' \<in> set (getcol ''ts'' df)" using l by (auto simp: getcol_def)
  then have dm: "getcol ''date_id'' F ! i \<in> set (getcol ''date_id'' (tbl_dim_date T))"
    using dim_date_shape[OF parts(1)] d by simp
  have nt: "Null \<notin> set (getcol ''spotify_track_uri'' (tbl_dim_track T))"
    by (rule keyed_no_null[OF dim_track_shape(1)[OF parts(3)]]) (use dim_track_shape(3)[OF parts(3)] in blast)
  have ne: "Null \<notin> set (getcol ''spotify_episode_uri'' (tbl_dim_episode T))"
    by (rule keyed_no_null[OF dim_episode_shape(1)[OF parts(4)]]) (use dim_episode_shape(3)[OF parts(4)] in blast)
  have un: "(x ''spotify_track_uri'' = Null \<longrightarrow> getcol ''track_id'' F ! i = IntV UNKNOWN_ID)
          \<and> (x ''spotify_episode_uri'' = Null \<longrightarrow> getcol ''episode_id'' F ! i = IntV UNKNOWN_ID)"
    if "x \<in> set (map snd (rows df))" "x ''event_id'' = getcol ''event_id'' F ! i" for x
  proof -
    have "x = l" using that l e unfolding df_def by (intro clean_data_rows_by_id) simp_all
    then show ?thesis using key_link_null[OF k2 _ nt] key_link_null[OF k3 _ ne] by blast
  qed
  show ?thesis
    using m1 m2 m3 m4 dm un unfolding F_def[symmetric] df_def[symmetric] by blast
qed



end
